theory Spec2Isabelle
  imports Main "HOL-Library.Word" "HOL-Library.Char_ord" "HOL-Library.List_Lexorder"
    "HOL-Library.Product_Lexorder" "HOL-Library.Sublist"
begin

unbundle bit_operations_syntax

chapter \<open>BlackRoad Dotfiles Manager: a model of \<^verbatim>\<open>dotfiles_manager.py\<close>\<close>

text \<open>
  The development follows the Python module from its leaves to its commands: the two
  library codecs the module calls on file contents (Base64 and SHA-256), the file system
  the commands act on, the SQLite store behind \<^verbatim>\<open>get_db\<close>, and then the commands
  \<^verbatim>\<open>cmd_register\<close>, \<^verbatim>\<open>cmd_link\<close>, \<^verbatim>\<open>cmd_backup\<close>, \<^verbatim>\<open>cmd_diff\<close>,
  \<^verbatim>\<open>cmd_restore\<close>, \<^verbatim>\<open>cmd_export_manifest\<close> and \<^verbatim>\<open>cmd_import_manifest\<close>.
  Every command takes the state it reads (store, file system) and returns the state it
  leaves together with an outcome naming the message it prints. An exception that
  the Python does not catch is an outcome of its own (\<open>LinkRaised\<close>, \<open>BackupRaised\<close>,
  \<open>RestoreRaised\<close>, \<open>ChangedThenRaised\<close>); the state returned with it is the state
  before the library call that failed.

  What the environment decides is a parameter of the model: the time of a backup
  (\<open>now\<close>), the external \<^verbatim>\<open>diff\<close> program (\<open>tool\<close>), and the order in which the
  database engine returns rows that its query does not order (\<open>tie\<close>). File
  permissions, floating-point numbers and a second file system are not modelled.
\<close>

section \<open>File contents and the codecs applied to them\<close>

type_synonym byte = "8 word"
type_synonym u32 = "32 word"

subsection \<open>Base64 (\<^verbatim>\<open>base64.b64encode\<close>, \<^verbatim>\<open>base64.b64decode\<close>)\<close>

definition table_b2a_base64 :: string where
  "table_b2a_base64 = ''ABCDEFGHIJKLMNOPQRSTUVWXYZabcdefghijklmnopqrstuvwxyz0123456789+/''"

definition b2a :: "byte \<Rightarrow> char" where
  "b2a s = table_b2a_base64 ! unat s"

fun index_of :: "'a \<Rightarrow> 'a list \<Rightarrow> nat option" where
  "index_of x [] = None"
| "index_of x (y # ys) = (if x = y then Some 0 else map_option Suc (index_of x ys))"

definition table_a2b_base64 :: "char \<Rightarrow> byte option" where
  "table_a2b_base64 c = map_option of_nat (index_of c table_b2a_base64)"

text \<open>
  The four 6-bit groups of three bytes \<open>a\<close>, \<open>b\<close>, \<open>c\<close>:
  \<^verbatim>\<open>a >> 2\<close>, \<^verbatim>\<open>((a & 3) << 4) | (b >> 4)\<close>, \<^verbatim>\<open>((b & 15) << 2) | (c >> 6)\<close> and
  \<^verbatim>\<open>c & 63\<close>. A final group of one or two bytes is filled with zero bits and padded
  with \<^verbatim>\<open>=\<close>.
\<close>

definition sextet0 :: "byte \<Rightarrow> byte" where
  "sextet0 a = drop_bit 2 a"

definition sextet1 :: "byte \<Rightarrow> byte \<Rightarrow> byte" where
  "sextet1 a b = push_bit 4 (a AND 3) OR drop_bit 4 b"

definition sextet2 :: "byte \<Rightarrow> byte \<Rightarrow> byte" where
  "sextet2 b c = push_bit 2 (b AND 15) OR drop_bit 6 c"

definition sextet3 :: "byte \<Rightarrow> byte" where
  "sextet3 c = c AND 63"

fun b2a_base64 :: "byte list \<Rightarrow> string" where
  "b2a_base64 [] = []"
| "b2a_base64 [a] = [b2a (sextet0 a), b2a (sextet1 a 0), CHR ''='', CHR ''='']"
| "b2a_base64 [a, b] = [b2a (sextet0 a), b2a (sextet1 a b), b2a (sextet2 b 0), CHR ''='']"
| "b2a_base64 (a # b # c # rest) =
     [b2a (sextet0 a), b2a (sextet1 a b), b2a (sextet2 b c), b2a (sextet3 c)] @ b2a_base64 rest"

text \<open>
  The decoder is CPython's \<^verbatim>\<open>binascii.a2b_base64\<close> in its default, non-strict mode: a
  state machine over the characters with the position in the current group of four
  (\<open>quad_pos\<close>), the bits left over from the previous character (\<open>leftchar\<close>) and the
  number of padding characters just seen (\<open>pads\<close>). Characters outside the alphabet
  are skipped, a complete padding ends the input, and input that ends inside a group is
  an error (\<open>None\<close>, Python's \<^verbatim>\<open>binascii.Error\<close>).
\<close>

fun a2b_base64 :: "nat \<Rightarrow> byte \<Rightarrow> nat \<Rightarrow> string \<Rightarrow> byte list option" where
  "a2b_base64 quad_pos leftchar pads [] = (if quad_pos \<noteq> 0 then None else Some [])"
| "a2b_base64 quad_pos leftchar pads (ch # rest) =
     (if ch = CHR ''='' then
        (if quad_pos \<ge> 2 \<and> quad_pos + (pads + 1) \<ge> 4 then Some []
         else a2b_base64 quad_pos leftchar (if quad_pos \<ge> 2 then pads + 1 else pads) rest)
      else
        (case table_a2b_base64 ch of
           None \<Rightarrow> a2b_base64 quad_pos leftchar pads rest
         | Some this_ch \<Rightarrow>
             (if quad_pos = 0 then a2b_base64 1 this_ch 0 rest
              else if quad_pos = 1 then
                map_option ((#) (push_bit 2 leftchar OR drop_bit 4 this_ch))
                  (a2b_base64 2 (this_ch AND 15) 0 rest)
              else if quad_pos = 2 then
                map_option ((#) (push_bit 4 leftchar OR drop_bit 2 this_ch))
                  (a2b_base64 3 (this_ch AND 3) 0 rest)
              else
                map_option ((#) (push_bit 6 leftchar OR this_ch))
                  (a2b_base64 0 0 0 rest))))"

definition b64encode :: "byte list \<Rightarrow> string" where
  "b64encode content = b2a_base64 content"

definition is_ascii :: "char \<Rightarrow> bool" where
  "is_ascii c = (of_char c < (128 :: nat))"

text \<open>
  \<^verbatim>\<open>b64decode\<close> of a \<^verbatim>\<open>str\<close> first encodes it as ASCII and raises \<^verbatim>\<open>ValueError\<close>
  on any other character; both exceptions are the result \<open>None\<close>.
\<close>

definition b64decode :: "string \<Rightarrow> byte list option" where
  "b64decode s = (if list_all is_ascii s then a2b_base64 0 0 0 s else None)"

subsection \<open>SHA-256 (\<^verbatim>\<open>hashlib.sha256\<close>, FIPS 180-4)\<close>

text \<open>
  The round constants (the first 32 bits of the fractional parts of the cube roots of the
  first 64 primes) and the initial hash value (likewise from the square roots of the
  first 8 primes), in decimal.
\<close>

definition K256 :: "u32 list" where
  "K256 =
    [1116352408, 1899447441, 3049323471, 3921009573, 961987163, 1508970993,
     2453635748, 2870763221, 3624381080, 310598401, 607225278, 1426881987,
     1925078388, 2162078206, 2614888103, 3248222580, 3835390401, 4022224774,
     264347078, 604807628, 770255983, 1249150122, 1555081692, 1996064986,
     2554220882, 2821834349, 2952996808, 3210313671, 3336571891, 3584528711,
     113926993, 338241895, 666307205, 773529912, 1294757372, 1396182291,
     1695183700, 1986661051, 2177026350, 2456956037, 2730485921, 2820302411,
     3259730800, 3345764771, 3516065817, 3600352804, 4094571909, 275423344,
     430227734, 506948616, 659060556, 883997877, 958139571, 1322822218,
     1537002063, 1747873779, 1955562222, 2024104815, 2227730452, 2361852424,
     2428436474, 2756734187, 3204031479, 3329325298]"

definition Ch :: "u32 \<Rightarrow> u32 \<Rightarrow> u32 \<Rightarrow> u32" where
  "Ch x y z = (x AND y) XOR (NOT x AND z)"

definition Maj :: "u32 \<Rightarrow> u32 \<Rightarrow> u32 \<Rightarrow> u32" where
  "Maj x y z = (x AND y) XOR (x AND z) XOR (y AND z)"

definition Sigma0 :: "u32 \<Rightarrow> u32" where
  "Sigma0 x = word_rotr 2 x XOR word_rotr 13 x XOR word_rotr 22 x"

definition Sigma1 :: "u32 \<Rightarrow> u32" where
  "Sigma1 x = word_rotr 6 x XOR word_rotr 11 x XOR word_rotr 25 x"

definition sigma0 :: "u32 \<Rightarrow> u32" where
  "sigma0 x = word_rotr 7 x XOR word_rotr 18 x XOR drop_bit 3 x"

definition sigma1 :: "u32 \<Rightarrow> u32" where
  "sigma1 x = word_rotr 17 x XOR word_rotr 19 x XOR drop_bit 10 x"

text \<open>Big-endian 32-bit words of a block; the split of the padded message into blocks.\<close>

fun be32 :: "byte list \<Rightarrow> u32 list" where
  "be32 (a # b # c # d # rest) =
     (push_bit 24 (ucast a) OR push_bit 16 (ucast b) OR push_bit 8 (ucast c) OR ucast d) # be32 rest"
| "be32 _ = []"

fun chunks64 :: "byte list \<Rightarrow> byte list list" where
  "chunks64 [] = []"
| "chunks64 (x # xs) = take 64 (x # xs) # chunks64 (drop 64 (x # xs))"

text \<open>
  Padding: the byte \<^verbatim>\<open>0x80\<close>, zero bytes up to 56 modulo 64, and the length of the
  message in bits as a 64-bit big-endian number.
\<close>

definition sha_pad :: "byte list \<Rightarrow> byte list" where
  "sha_pad m =
     m @ [0x80] @ replicate ((119 - length m mod 64) mod 64) 0 @
     map (\<lambda>i. ucast (drop_bit (8 * (7 - i)) (word_of_nat (8 * length m) :: 64 word))) [0..<8]"

fun schedule :: "nat \<Rightarrow> u32 list \<Rightarrow> u32 list" where
  "schedule 0 w = w"
| "schedule (Suc n) w =
     (let t = length w
      in schedule n (w @ [sigma1 (w ! (t - 2)) + w ! (t - 7) + sigma0 (w ! (t - 15)) + w ! (t - 16)]))"

datatype sha_state = ShaState u32 u32 u32 u32 u32 u32 u32 u32

fun sha_round :: "sha_state \<Rightarrow> u32 \<times> u32 \<Rightarrow> sha_state" where
  "sha_round (ShaState a b c d e f g h) (k, w) =
     (let t1 = h + Sigma1 e + Ch e f g + k + w;
          t2 = Sigma0 a + Maj a b c
      in ShaState (t1 + t2) a b c (d + t1) e f g)"

fun sha_add :: "sha_state \<Rightarrow> sha_state \<Rightarrow> sha_state" where
  "sha_add (ShaState a b c d e f g h) (ShaState a' b' c' d' e' f' g' h') =
     ShaState (a + a') (b + b') (c + c') (d + d') (e + e') (f + f') (g + g') (h + h')"

definition sha_block :: "sha_state \<Rightarrow> byte list \<Rightarrow> sha_state" where
  "sha_block H blk = sha_add H (foldl sha_round H (zip K256 (schedule 48 (be32 blk))))"

definition sha_init :: sha_state where
  "sha_init = ShaState 1779033703 3144134277 1013904242 2773480762
                        1359893119 2600822924 528734635 1541459225"

fun word_bytes :: "u32 \<Rightarrow> byte list" where
  "word_bytes w = [ucast (drop_bit 24 w), ucast (drop_bit 16 w), ucast (drop_bit 8 w), ucast w]"

fun state_bytes :: "sha_state \<Rightarrow> byte list" where
  "state_bytes (ShaState a b c d e f g h) = concat (map word_bytes [a, b, c, d, e, f, g, h])"

definition sha256 :: "byte list \<Rightarrow> byte list" where
  "sha256 m = state_bytes (foldl sha_block sha_init (chunks64 (sha_pad m)))"

definition hex_digit :: "nat \<Rightarrow> char" where
  "hex_digit n = ''0123456789abcdef'' ! n"

definition hex_byte :: "byte \<Rightarrow> string" where
  "hex_byte b = [hex_digit (unat b div 16), hex_digit (unat b mod 16)]"

definition hexdigest :: "byte list \<Rightarrow> string" where
  "hexdigest d = concat (map hex_byte d)"

section \<open>Paths and the file system\<close>

subsection \<open>Path strings (\<^verbatim>\<open>pathlib.Path\<close>)\<close>

text \<open>
  A path string is cut at its slashes; \<^verbatim>\<open>Path\<close> drops empty and \<^verbatim>\<open>.\<close> components and
  remembers whether the string started at the root. A component \<^verbatim>\<open>..\<close> is kept as a
  name like any other (the model does not interpret it), and the process is taken to run
  in the root directory, so a relative path names the file with the same components.
\<close>

fun split_slash :: "string \<Rightarrow> string list" where
  "split_slash [] = [[]]"
| "split_slash (c # cs) =
     (if c = CHR ''/'' then [] # split_slash cs
      else (case split_slash cs of [] \<Rightarrow> [[c]] | w # ws \<Rightarrow> (c # w) # ws))"

record PurePath =
  anchored :: bool
  parts :: "string list"

definition Path :: "string \<Rightarrow> PurePath" where
  "Path s = \<lparr>anchored = (case s of [] \<Rightarrow> False | c # _ \<Rightarrow> c = CHR ''/''),
             parts = filter (\<lambda>w. w \<noteq> [] \<and> w \<noteq> ''.'') (split_slash s)\<rparr>"

fun join_slash :: "string list \<Rightarrow> string" where
  "join_slash [] = []"
| "join_slash [w] = w"
| "join_slash (w # ws) = w @ ''/'' @ join_slash ws"

definition path_str :: "PurePath \<Rightarrow> string" where
  "path_str p =
     (if anchored p then ''/'' @ join_slash (parts p)
      else if parts p = [] then ''.'' else join_slash (parts p))"

definition parent :: "PurePath \<Rightarrow> PurePath" where
  "parent p = p\<lparr>parts := butlast (parts p)\<rparr>"

subsection \<open>The file system\<close>

text \<open>
  The file system maps the components of an absolute path to the node found there: a
  regular file with its bytes, a directory, or a symbolic link with the text stored in
  it. The root is a directory. Operations take the location as a component list; the
  commands reach them through \<open>os_key\<close>, the components of a path string. A path is
  looked up by its components as they are written: a symbolic link is followed when it
  is the last component, and a path that runs through a linked directory is not
  resolved.
\<close>

type_synonym fskey = "string list"

datatype node = File "byte list" | Dir | Symlink string

type_synonym filesystem = "fskey \<Rightarrow> node option"

datatype exn =
    FileNotFoundError | FileExistsError | NotADirectoryError | IsADirectoryError
  | TooManyLinks | InvalidArgument | DirectoryNotEmpty
  | SameFileError | ShutilError
  | BinasciiError | TypeError | KeyError | OverflowError | InterfaceError

definition os_key :: "string \<Rightarrow> fskey" where
  "os_key s = parts (Path s)"

text \<open>A \<^verbatim>\<open>Path\<close> method hands \<^verbatim>\<open>str(self)\<close> to the operating system.\<close>

definition key :: "PurePath \<Rightarrow> fskey" where
  "key p = os_key (path_str p)"

definition lstat :: "filesystem \<Rightarrow> fskey \<Rightarrow> node option" where
  "lstat fs k = (if k = [] then Some Dir else fs k)"

text \<open>
  The location a link's text names: an absolute text from the root, a relative one from
  the directory that holds the link.
\<close>

definition link_target :: "fskey \<Rightarrow> string \<Rightarrow> fskey" where
  "link_target k text =
     (if anchored (Path text) then parts (Path text) else butlast k @ parts (Path text))"

text \<open>
  \<open>follow n fs k\<close> walks symbolic links from \<open>k\<close>, at most \<open>n\<close> of them, to the first
  location that is not a link (it may hold nothing); \<open>None\<close> is the kernel's \<^verbatim>\<open>ELOOP\<close>.
  Linux follows at most 40 links.
\<close>

fun follow :: "nat \<Rightarrow> filesystem \<Rightarrow> fskey \<Rightarrow> fskey option" where
  "follow 0 fs k =
     (case lstat fs k of Some (Symlink text) \<Rightarrow> None | _ \<Rightarrow> Some k)"
| "follow (Suc n) fs k =
     (case lstat fs k of Some (Symlink text) \<Rightarrow> follow n fs (link_target k text) | _ \<Rightarrow> Some k)"

definition stat :: "filesystem \<Rightarrow> fskey \<Rightarrow> (fskey \<times> node) option" where
  "stat fs k =
     (case follow 40 fs k of
        None \<Rightarrow> None
      | Some k' \<Rightarrow> (case lstat fs k' of None \<Rightarrow> None | Some n \<Rightarrow> Some (k', n)))"

text \<open>\<^verbatim>\<open>Path.exists\<close>, \<^verbatim>\<open>Path.is_symlink\<close>, \<^verbatim>\<open>Path.is_dir\<close>, \<^verbatim>\<open>os.readlink\<close>.\<close>

definition path_exists :: "filesystem \<Rightarrow> fskey \<Rightarrow> bool" where
  "path_exists fs k = (stat fs k \<noteq> None)"

definition is_symlink :: "filesystem \<Rightarrow> fskey \<Rightarrow> bool" where
  "is_symlink fs k = (case lstat fs k of Some (Symlink _) \<Rightarrow> True | _ \<Rightarrow> False)"

definition is_dir :: "filesystem \<Rightarrow> fskey \<Rightarrow> bool" where
  "is_dir fs k = (case stat fs k of Some (_, Dir) \<Rightarrow> True | _ \<Rightarrow> False)"

definition readlink :: "filesystem \<Rightarrow> fskey \<Rightarrow> exn + string" where
  "readlink fs k =
     (case lstat fs k of
        Some (Symlink text) \<Rightarrow> Inr text
      | Some _ \<Rightarrow> Inl InvalidArgument
      | None \<Rightarrow> Inl FileNotFoundError)"

text \<open>
  A new name can be entered only in an existing directory: the error of a system call
  that creates \<open>k\<close> when its parent is missing or is not a directory.
\<close>

definition parent_error :: "filesystem \<Rightarrow> fskey \<Rightarrow> exn option" where
  "parent_error fs k =
     (case stat fs (butlast k) of
        None \<Rightarrow> Some FileNotFoundError
      | Some (_, Dir) \<Rightarrow> None
      | Some _ \<Rightarrow> Some NotADirectoryError)"

definition os_mkdir :: "filesystem \<Rightarrow> fskey \<Rightarrow> exn + filesystem" where
  "os_mkdir fs k =
     (if lstat fs k \<noteq> None then Inl FileExistsError
      else case parent_error fs k of
             Some e \<Rightarrow> Inl e
           | None \<Rightarrow> Inr (fs(k \<mapsto> Dir)))"

text \<open>
  \<^verbatim>\<open>Path.mkdir(parents=True, exist_ok=True)\<close>: try \<^verbatim>\<open>os.mkdir\<close>; when the parent is
  missing, make the parent the same way and try once more; any other error is
  forgiven exactly when the path is a directory already.
\<close>

function mkdir_parents :: "filesystem \<Rightarrow> fskey \<Rightarrow> exn + filesystem" where
  "mkdir_parents fs k =
     (case os_mkdir fs k of
        Inr fs' \<Rightarrow> Inr fs'
      | Inl FileNotFoundError \<Rightarrow>
          (if k = [] then Inl FileNotFoundError
           else case mkdir_parents fs (butlast k) of
                  Inl e \<Rightarrow> Inl e
                | Inr fs' \<Rightarrow>
                    (case os_mkdir fs' k of
                       Inr fs'' \<Rightarrow> Inr fs''
                     | Inl FileNotFoundError \<Rightarrow> Inl FileNotFoundError
                     | Inl e \<Rightarrow> (if is_dir fs' k then Inr fs' else Inl e)))
      | Inl e \<Rightarrow> (if is_dir fs k then Inr fs else Inl e))"
  by pat_completeness auto
termination
  by (relation "measure (\<lambda>(fs, k). length k)") auto

declare mkdir_parents.simps [simp del]

text \<open>
  \<^verbatim>\<open>os.rename\<close> (POSIX \<^verbatim>\<open>rename\<close>): the node at \<open>src\<close>, with everything below it,
  moves to \<open>dst\<close>. A file or link replaces a file or link; a directory replaces an
  empty directory only; nothing moves into its own subtree. (\<open>dir_empty\<close> asks about
  every name below a directory; \<open>shutil_move\<close> never renames onto a directory, so no
  command evaluates it.)
\<close>

definition move_tree :: "filesystem \<Rightarrow> fskey \<Rightarrow> fskey \<Rightarrow> filesystem" where
  "move_tree fs src dst =
     (\<lambda>k. if prefix dst k then fs (src @ drop (length dst) k)
          else if prefix src k then None
          else fs k)"

definition dir_empty :: "filesystem \<Rightarrow> fskey \<Rightarrow> bool" where
  "dir_empty fs k = (\<nexists>x. fs (k @ [x]) \<noteq> None)"

definition os_rename :: "filesystem \<Rightarrow> fskey \<Rightarrow> fskey \<Rightarrow> exn + filesystem" where
  "os_rename fs src dst =
     (case (if src = [] then None else fs src) of
        None \<Rightarrow> Inl (if src = [] then InvalidArgument else FileNotFoundError)
      | Some n \<Rightarrow>
          (if dst = [] then Inl (if n = Dir then DirectoryNotEmpty else IsADirectoryError)
           else case parent_error fs dst of
             Some e \<Rightarrow> Inl e
           | None \<Rightarrow>
               if src = dst then Inr fs
               else if n = Dir then
                 (if prefix src dst then Inl InvalidArgument
                  else case fs dst of
                    None \<Rightarrow> Inr (move_tree fs src dst)
                  | Some Dir \<Rightarrow>
                      if dir_empty fs dst then Inr (move_tree fs src dst)
                      else Inl DirectoryNotEmpty
                  | Some _ \<Rightarrow> Inl NotADirectoryError)
               else
                 (case fs dst of
                    Some Dir \<Rightarrow> Inl IsADirectoryError
                  | _ \<Rightarrow> Inr (move_tree fs src dst))))"

definition samefile :: "filesystem \<Rightarrow> fskey \<Rightarrow> fskey \<Rightarrow> bool" where
  "samefile fs a b =
     (case (stat fs a, stat fs b) of
        (Some (ka, _), Some (kb, _)) \<Rightarrow> ka = kb
      | _ \<Rightarrow> False)"

text \<open>
  \<^verbatim>\<open>shutil.move(src, dst)\<close>. A destination that is a directory receives the source
  under its own last name, unless that name is taken there. The move itself is
  \<^verbatim>\<open>os.rename\<close>. Python falls back to copying when the rename fails; as \<^verbatim>\<open>cmd_link\<close>
  calls it, with the destination beside the source on one file system, a rename fails
  only where the fallback fails as well (the destination exists as something a
  directory cannot replace, or lies inside the source), so a failed rename is an
  exception of the move.
\<close>

definition shutil_move :: "filesystem \<Rightarrow> fskey \<Rightarrow> fskey \<Rightarrow> exn + filesystem" where
  "shutil_move fs src dst =
     (case stat fs dst of
        Some (d, Dir) \<Rightarrow>
          if samefile fs src dst \<and> \<not> is_symlink fs src then os_rename fs src dst
          else if src = [] then Inl ShutilError
          else if path_exists fs (d @ [last src]) then Inl ShutilError
          else os_rename fs src (d @ [last src])
      | _ \<Rightarrow> os_rename fs src dst)"

definition os_symlink :: "filesystem \<Rightarrow> string \<Rightarrow> fskey \<Rightarrow> exn + filesystem" where
  "os_symlink fs text k =
     (if lstat fs k \<noteq> None then Inl FileExistsError
      else case parent_error fs k of
             Some e \<Rightarrow> Inl e
           | None \<Rightarrow> Inr (fs(k \<mapsto> Symlink text)))"

text \<open>
  Reading and writing a whole file (\<^verbatim>\<open>open(path, "rb").read()\<close>, \<^verbatim>\<open>Path.read_bytes\<close>,
  \<^verbatim>\<open>Path.write_bytes\<close>): both follow symbolic links; writing creates the file when the
  last location holds nothing and its directory exists.
\<close>

definition read_bytes :: "filesystem \<Rightarrow> fskey \<Rightarrow> exn + byte list" where
  "read_bytes fs k =
     (case follow 40 fs k of
        None \<Rightarrow> Inl TooManyLinks
      | Some k' \<Rightarrow>
          (case lstat fs k' of
             Some (File content) \<Rightarrow> Inr content
           | Some _ \<Rightarrow> Inl IsADirectoryError
           | None \<Rightarrow> Inl FileNotFoundError))"

definition write_bytes :: "filesystem \<Rightarrow> fskey \<Rightarrow> byte list \<Rightarrow> exn + filesystem" where
  "write_bytes fs k content =
     (case follow 40 fs k of
        None \<Rightarrow> Inl TooManyLinks
      | Some k' \<Rightarrow>
          (case lstat fs k' of
             Some (File _) \<Rightarrow> Inr (fs(k' \<mapsto> File content))
           | Some _ \<Rightarrow> Inl IsADirectoryError
           | None \<Rightarrow>
               (case parent_error fs k' of
                  Some e \<Rightarrow> Inl e
                | None \<Rightarrow> Inr (fs(k' \<mapsto> File content)))))"

text \<open>
  \<^verbatim>\<open>shutil.copy2(src, dst)\<close>: into a directory under the source's last name; refuses to
  copy a file onto itself; otherwise reads the source and writes the destination.
\<close>

definition copy2 :: "filesystem \<Rightarrow> fskey \<Rightarrow> fskey \<Rightarrow> exn + filesystem" where
  "copy2 fs src dst =
     (let dst' = (case stat fs dst of
                    Some (d, Dir) \<Rightarrow> (if src = [] then d else d @ [last src])
                  | _ \<Rightarrow> dst)
      in if samefile fs src dst' then Inl SameFileError
         else case read_bytes fs src of
                Inl e \<Rightarrow> Inl e
              | Inr content \<Rightarrow> write_bytes fs dst' content)"

section \<open>The store (\<^verbatim>\<open>get_db\<close>)\<close>

text \<open>
  \<^verbatim>\<open>get_db\<close> opens the store and creates its two tables when they do not exist; the
  commands below take the opened store as an argument, and \<open>empty_store\<close> is the store
  \<^verbatim>\<open>get_db\<close> creates. Each table comes with the counter SQLite keeps for an
  \<^verbatim>\<open>AUTOINCREMENT\<close> key. Rows are listed in the order of their insertion. A value
  bound to a statement is \<^verbatim>\<open>NULL\<close>, an integer or a text. SQLite does not enforce
  \<^verbatim>\<open>REFERENCES\<close> unless asked to, and \<^verbatim>\<open>get_db\<close> does not ask.
\<close>

datatype sqlval = SNull | SInt int | SText string

record dotfile_row =
  d_id :: int
  d_name :: string
  d_source_path :: string
  d_target_path :: string
  d_category :: string
  d_description :: string
  d_auto_update :: sqlval

record snapshot_row =
  s_id :: int
  s_entry_id :: int
  s_content_hash :: string
  s_content_b64 :: string
  s_saved_at :: string
  s_notes :: string

record store =
  dotfiles :: "dotfile_row list"
  dotfiles_seq :: int
  snapshots :: "snapshot_row list"
  snapshots_seq :: int

definition empty_store :: store where
  "empty_store = \<lparr>dotfiles = [], dotfiles_seq = 0, snapshots = [], snapshots_seq = 0\<rparr>"

text \<open>
  \<^verbatim>\<open>INTEGER PRIMARY KEY AUTOINCREMENT\<close>: one more than the largest key the table holds
  or has ever held.
\<close>

definition next_rowid :: "int \<Rightarrow> int list \<Rightarrow> int" where
  "next_rowid seq ids = fold max ids seq + 1"

subsection \<open>Column affinity\<close>

fun dec_nat :: "nat \<Rightarrow> string" where
  "dec_nat n =
     (if n < 10 then [char_of (48 + n)] else dec_nat (n div 10) @ [char_of (48 + n mod 10)])"

declare dec_nat.simps [simp del]

definition dec_int :: "int \<Rightarrow> string" where
  "dec_int i = (if i < 0 then ''-'' @ dec_nat (nat (- i)) else dec_nat (nat i))"

definition is_space :: "char \<Rightarrow> bool" where
  "is_space c = (c = CHR '' '' \<or> (9 \<le> (of_char c :: nat) \<and> (of_char c :: nat) \<le> 13))"

definition is_digit :: "char \<Rightarrow> bool" where
  "is_digit c = (48 \<le> (of_char c :: nat) \<and> (of_char c :: nat) \<le> 57)"

definition strip_space :: "string \<Rightarrow> string" where
  "strip_space s = rev (dropWhile is_space (rev (dropWhile is_space s)))"

definition digits_val :: "string \<Rightarrow> int" where
  "digits_val ds = foldl (\<lambda>a c. 10 * a + (int (of_char c) - 48)) 0 ds"

text \<open>
  The integer a text is converted to when it is stored in a column of \<^verbatim>\<open>INTEGER\<close>
  affinity: an optionally signed run of decimal digits, possibly between white space,
  that fits 64 bits. (A text that SQLite would read as a real number stays a text here.)
\<close>

definition int_literal :: "string \<Rightarrow> int option" where
  "int_literal s =
     (let t = strip_space s;
          neg = (case t of c # _ \<Rightarrow> c = CHR ''-'' | [] \<Rightarrow> False);
          ds = (case t of c # r \<Rightarrow> if c = CHR ''-'' \<or> c = CHR ''+'' then r else t | [] \<Rightarrow> []);
          v = (if neg then - digits_val ds else digits_val ds)
      in if ds \<noteq> [] \<and> list_all is_digit ds \<and> - (2 ^ 63) \<le> v \<and> v < 2 ^ 63
         then Some v else None)"

fun text_affinity :: "sqlval \<Rightarrow> sqlval" where
  "text_affinity (SInt i) = SText (dec_int i)"
| "text_affinity v = v"

fun integer_affinity :: "sqlval \<Rightarrow> sqlval" where
  "integer_affinity (SText s) = (case int_literal s of Some i \<Rightarrow> SInt i | None \<Rightarrow> SText s)"
| "integer_affinity v = v"

text \<open>A \<^verbatim>\<open>TEXT NOT NULL\<close> column: the text stored for a value, \<open>None\<close> for \<^verbatim>\<open>NULL\<close>.\<close>

fun text_not_null :: "sqlval \<Rightarrow> string option" where
  "text_not_null v = (case text_affinity v of SText s \<Rightarrow> Some s | _ \<Rightarrow> None)"

subsection \<open>Inserting rows\<close>

text \<open>
  \<^verbatim>\<open>INSERT INTO dotfiles(name, source_path, target_path, category, description,
  auto_update)\<close>: the values take their columns' affinity; the row is refused (\<open>None\<close>)
  when a value is \<^verbatim>\<open>NULL\<close> or the name is in the table already (\<^verbatim>\<open>NOT NULL\<close>,
  \<^verbatim>\<open>UNIQUE\<close>). A plain \<^verbatim>\<open>INSERT\<close> turns the refusal into \<^verbatim>\<open>sqlite3.IntegrityError\<close>,
  \<^verbatim>\<open>INSERT OR IGNORE\<close> into a statement that does nothing.
\<close>

definition insert_dotfile ::
  "store \<Rightarrow> sqlval \<Rightarrow> sqlval \<Rightarrow> sqlval \<Rightarrow> sqlval \<Rightarrow> sqlval \<Rightarrow> sqlval \<Rightarrow> store option" where
  "insert_dotfile db vname vsource vtarget vcategory vdescription vauto =
     (case (text_not_null vname, text_not_null vsource, text_not_null vtarget,
            text_not_null vcategory, text_not_null vdescription) of
        (Some n, Some src, Some tgt, Some cat, Some descr) \<Rightarrow>
          if integer_affinity vauto = SNull then None
          else if n \<in> set (map d_name (dotfiles db)) then None
          else
            let rowid = next_rowid (dotfiles_seq db) (map d_id (dotfiles db))
            in Some (db\<lparr>dotfiles := dotfiles db @
                          [\<lparr>d_id = rowid, d_name = n, d_source_path = src, d_target_path = tgt,
                            d_category = cat, d_description = descr,
                            d_auto_update = integer_affinity vauto\<rparr>],
                        dotfiles_seq := rowid\<rparr>)
      | _ \<Rightarrow> None)"

definition insert_snapshot ::
  "store \<Rightarrow> int \<Rightarrow> string \<Rightarrow> string \<Rightarrow> string \<Rightarrow> string \<Rightarrow> store" where
  "insert_snapshot db entry_id h b64 now notes =
     (let rowid = next_rowid (snapshots_seq db) (map s_id (snapshots db))
      in db\<lparr>snapshots := snapshots db @
               [\<lparr>s_id = rowid, s_entry_id = entry_id, s_content_hash = h, s_content_b64 = b64,
                 s_saved_at = now, s_notes = notes\<rparr>],
             snapshots_seq := rowid\<rparr>)"

text \<open>\<^verbatim>\<open>SELECT * FROM dotfiles WHERE id=?\<close> and \<^verbatim>\<open>SELECT * FROM snapshots WHERE id=?\<close>.\<close>

definition select_dotfile :: "store \<Rightarrow> int \<Rightarrow> dotfile_row option" where
  "select_dotfile db entry_id = find (\<lambda>r. d_id r = entry_id) (dotfiles db)"

definition select_snapshot :: "store \<Rightarrow> int \<Rightarrow> snapshot_row option" where
  "select_snapshot db snapshot_id = find (\<lambda>r. s_id r = snapshot_id) (snapshots db)"

subsection \<open>Rows as Python objects\<close>

record DotfileEntry =
  e_id :: int
  e_name :: string
  e_source_path :: string
  e_target_path :: string
  e_category :: string
  e_description :: string
  e_auto_update :: bool

fun py_bool :: "sqlval \<Rightarrow> bool" where
  "py_bool SNull = False"
| "py_bool (SInt i) = (i \<noteq> 0)"
| "py_bool (SText s) = (s \<noteq> [])"

definition row_to_entry :: "dotfile_row \<Rightarrow> DotfileEntry" where
  "row_to_entry d =
     \<lparr>e_id = d_id d, e_name = d_name d, e_source_path = d_source_path d,
      e_target_path = d_target_path d, e_category = d_category d,
      e_description = d_description d, e_auto_update = py_bool (d_auto_update d)\<rparr>"

definition file_hash :: "filesystem \<Rightarrow> string \<Rightarrow> string" where
  "file_hash fs path =
     (case read_bytes fs (os_key path) of
        Inr content \<Rightarrow> hexdigest (sha256 content)
      | Inl _ \<Rightarrow> [])"

section \<open>Commands\<close>

subsection \<open>\<^verbatim>\<open>cmd_register\<close>\<close>

definition CATEGORIES :: "string list" where
  "CATEGORIES = [''shell'', ''editor'', ''git'', ''tmux'', ''tool'']"

text \<open>
  The arguments as the command uses them: \<open>a_source\<close> is
  \<^verbatim>\<open>str(Path(args.source).expanduser().resolve())\<close> and \<open>a_target\<close> is
  \<^verbatim>\<open>str(Path(args.target).expanduser())\<close>, both computed by \<^verbatim>\<open>pathlib\<close> from the
  environment before the store is touched.
\<close>

record register_args =
  a_name :: string
  a_source :: string
  a_target :: string
  a_category :: string
  a_description :: string
  a_auto :: bool

datatype register_result =
    Registered  \<comment> \<open>\<^verbatim>\<open>ok("Registered: ...")\<close>\<close>
  | AlreadyRegistered  \<comment> \<open>\<^verbatim>\<open>err("A dotfile named ... is already registered")\<close>\<close>
  | BadCategory  \<comment> \<open>\<^verbatim>\<open>err("Category must be one of ..."); sys.exit(1)\<close>\<close>

definition cmd_register :: "store \<Rightarrow> register_args \<Rightarrow> store \<times> register_result" where
  "cmd_register db args =
     (if a_category args \<notin> set CATEGORIES then (db, BadCategory)
      else
        case insert_dotfile db (SText (a_name args)) (SText (a_source args))
               (SText (a_target args)) (SText (a_category args)) (SText (a_description args))
               (SInt (if a_auto args then 1 else 0)) of
          Some db' \<Rightarrow> (db', Registered)
        | None \<Rightarrow> (db, AlreadyRegistered))"

subsection \<open>\<^verbatim>\<open>cmd_link\<close>\<close>

datatype link_result =
    LinkEntryNotFound  \<comment> \<open>\<^verbatim>\<open>err("Entry #... not found")\<close>\<close>
  | SourceDoesNotExist  \<comment> \<open>\<^verbatim>\<open>err("Source does not exist: ...")\<close>\<close>
  | AlreadyLinked  \<comment> \<open>\<^verbatim>\<open>ok("Already linked: ...")\<close>\<close>
  | Linked "string option"
      \<comment> \<open>\<^verbatim>\<open>ok("Linked: ...")\<close>, after \<^verbatim>\<open>warn("Existing file backed up to ...")\<close> when
          the target was moved aside\<close>
  | LinkRaised exn

definition cmd_link :: "store \<Rightarrow> filesystem \<Rightarrow> int \<Rightarrow> filesystem \<times> link_result" where
  "cmd_link db fs entry_id =
     (case select_dotfile db entry_id of
        None \<Rightarrow> (fs, LinkEntryNotFound)
      | Some row \<Rightarrow>
          (let e = row_to_entry row;
               target = Path (e_target_path e);
               source = Path (e_source_path e)
           in if \<not> path_exists fs (key source) then (fs, SourceDoesNotExist)
              else
                (case mkdir_parents fs (key (parent target)) of
                   Inl x \<Rightarrow> (fs, LinkRaised x)
                 | Inr fs1 \<Rightarrow>
                     (if path_exists fs1 (key target) \<or> is_symlink fs1 (key target) then
                        (if is_symlink fs1 (key target) \<and>
                            readlink fs1 (os_key (path_str target)) = Inr (path_str source)
                         then (fs1, AlreadyLinked)
                         else
                           (let backup = path_str target @ ''.bak''
                            in (case shutil_move fs1 (os_key (path_str target)) (os_key backup) of
                                  Inl x \<Rightarrow> (fs1, LinkRaised x)
                                | Inr fs2 \<Rightarrow>
                                    (case os_symlink fs2 (path_str source)
                                            (os_key (path_str target)) of
                                       Inl x \<Rightarrow> (fs2, LinkRaised x)
                                     | Inr fs3 \<Rightarrow> (fs3, Linked (Some backup))))))
                      else
                        (case os_symlink fs1 (path_str source) (os_key (path_str target)) of
                           Inl x \<Rightarrow> (fs1, LinkRaised x)
                         | Inr fs3 \<Rightarrow> (fs3, Linked None))))))"

subsection \<open>\<^verbatim>\<open>cmd_backup\<close>\<close>

datatype backup_result =
    BackupEntryNotFound  \<comment> \<open>\<^verbatim>\<open>err("Entry #... not found")\<close>\<close>
  | SourceFileNotFound  \<comment> \<open>\<^verbatim>\<open>err("Source file not found: ...")\<close>\<close>
  | SnapshotSaved  \<comment> \<open>\<^verbatim>\<open>ok("Snapshot saved for ...")\<close>\<close>
  | BackupRaised exn

text \<open>\<open>now\<close> is \<^verbatim>\<open>datetime.now().isoformat()\<close>, \<open>notes\<close> is \<^verbatim>\<open>args.notes or ""\<close>.\<close>

definition cmd_backup ::
  "store \<Rightarrow> filesystem \<Rightarrow> string \<Rightarrow> int \<Rightarrow> string \<Rightarrow> store \<times> backup_result" where
  "cmd_backup db fs now entry_id notes =
     (case select_dotfile db entry_id of
        None \<Rightarrow> (db, BackupEntryNotFound)
      | Some row \<Rightarrow>
          (let e = row_to_entry row;
               path = Path (e_source_path e)
           in if \<not> path_exists fs (key path) then (db, SourceFileNotFound)
              else
                (case read_bytes fs (key path) of
                   Inl x \<Rightarrow> (db, BackupRaised x)
                 | Inr content \<Rightarrow>
                     (let h = hexdigest (sha256 content);
                          b64 = b64encode content
                      in (insert_snapshot db entry_id h b64 now notes, SnapshotSaved)))))"

subsection \<open>\<^verbatim>\<open>cmd_restore\<close>\<close>

datatype restore_result =
    RestoreEntryNotFound  \<comment> \<open>\<^verbatim>\<open>err("Entry #... not found")\<close>\<close>
  | SnapshotNotFound  \<comment> \<open>\<^verbatim>\<open>err("Snapshot #... not found")\<close>\<close>
  | Restored  \<comment> \<open>\<^verbatim>\<open>ok("Restored ... from snapshot #...")\<close>\<close>
  | RestoreRaised exn

definition cmd_restore ::
  "store \<Rightarrow> filesystem \<Rightarrow> int \<Rightarrow> int \<Rightarrow> filesystem \<times> restore_result" where
  "cmd_restore db fs entry_id snapshot_id =
     (case select_dotfile db entry_id of
        None \<Rightarrow> (fs, RestoreEntryNotFound)
      | Some row \<Rightarrow>
          (let e = row_to_entry row
           in (case select_snapshot db snapshot_id of
                 None \<Rightarrow> (fs, SnapshotNotFound)
               | Some snap \<Rightarrow>
                   (case b64decode (s_content_b64 snap) of
                      None \<Rightarrow> (fs, RestoreRaised BinasciiError)
                    | Some content \<Rightarrow>
                        (let path = Path (e_source_path e)
                         in (case (if path_exists fs (key path)
                                   then copy2 fs (os_key (path_str path))
                                          (os_key (path_str path @ ''.pre-restore''))
                                   else Inr fs) of
                               Inl x \<Rightarrow> (fs, RestoreRaised x)
                             | Inr fs1 \<Rightarrow>
                                 (case write_bytes fs1 (key path) content of
                                    Inl x \<Rightarrow> (fs1, RestoreRaised x)
                                  | Inr fs2 \<Rightarrow> (fs2, Restored))))))))"

subsection \<open>\<^verbatim>\<open>cmd_diff\<close>\<close>

text \<open>
  \<^verbatim>\<open>SELECT * FROM snapshots WHERE entry_id=? ORDER BY saved_at DESC LIMIT 1\<close>. The query
  names no second sort key, and SQL leaves the order of rows with equal keys to the
  engine: \<open>tie\<close> is the engine's choice among the entry's snapshots with the greatest
  \<open>saved_at\<close> (texts compare byte by byte).
\<close>

definition latest_candidates :: "store \<Rightarrow> int \<Rightarrow> snapshot_row list" where
  "latest_candidates db entry_id =
     (let rows = filter (\<lambda>r. s_entry_id r = entry_id) (snapshots db)
      in case rows of
           [] \<Rightarrow> []
         | r # rs \<Rightarrow>
             filter (\<lambda>x. s_saved_at x = fold max (map s_saved_at rs) (s_saved_at r)) rows)"

definition select_latest ::
  "(snapshot_row list \<Rightarrow> nat) \<Rightarrow> store \<Rightarrow> int \<Rightarrow> snapshot_row option" where
  "select_latest tie db entry_id =
     (case latest_candidates db entry_id of
        [] \<Rightarrow> None
      | c # cs \<Rightarrow> Some ((c # cs) ! (tie (c # cs) mod length (c # cs))))"

datatype diff_result =
    DiffEntryNotFound  \<comment> \<open>\<^verbatim>\<open>err("Entry #... not found")\<close>\<close>
  | NoSnapshots  \<comment> \<open>\<^verbatim>\<open>warn("No snapshots for ... Run `backup` first.")\<close>\<close>
  | NoChanges  \<comment> \<open>\<^verbatim>\<open>ok("...: no changes since last snapshot")\<close>\<close>
  | Changed string "string option"
      \<comment> \<open>\<^verbatim>\<open>warn("...: file has changed since snapshot ...")\<close> with the time shown, then
          the text printed from the diff, if any\<close>
  | ChangedThenRaised string exn
      \<comment> \<open>the same warning, then an exception\<close>

text \<open>
  The external \<^verbatim>\<open>diff -u old_file source_path\<close> is a parameter: \<open>None\<close> when the
  program cannot be started (\<^verbatim>\<open>subprocess.run\<close> raises \<^verbatim>\<open>FileNotFoundError\<close>),
  otherwise the standard output it produces from the snapshot's bytes and from what
  reading the source file gives. The temporary file that holds the snapshot's bytes is
  created and removed again within the command and is not part of the state.
\<close>

type_synonym difftool = "(byte list \<Rightarrow> exn + byte list \<Rightarrow> string) option"

definition cmd_diff ::
  "(snapshot_row list \<Rightarrow> nat) \<Rightarrow> difftool \<Rightarrow> store \<Rightarrow> filesystem \<Rightarrow> int \<Rightarrow> diff_result" where
  "cmd_diff tie tool db fs entry_id =
     (case select_dotfile db entry_id of
        None \<Rightarrow> DiffEntryNotFound
      | Some row \<Rightarrow>
          (let e = row_to_entry row
           in (case select_latest tie db entry_id of
                 None \<Rightarrow> NoSnapshots
               | Some snap \<Rightarrow>
                   (let current_hash = file_hash fs (e_source_path e)
                    in if current_hash = s_content_hash snap then NoChanges
                       else
                         (case b64decode (s_content_b64 snap) of
                            None \<Rightarrow> ChangedThenRaised (take 19 (s_saved_at snap)) BinasciiError
                          | Some old \<Rightarrow>
                              (case tool of
                                 None \<Rightarrow>
                                   ChangedThenRaised (take 19 (s_saved_at snap)) FileNotFoundError
                               | Some run \<Rightarrow>
                                   (let stdout = run old (read_bytes fs (os_key (e_source_path e)))
                                    in Changed (take 19 (s_saved_at snap))
                                         (if stdout \<noteq> [] then Some (take 2000 stdout)
                                          else None))))))))"

subsection \<open>The manifest: \<^verbatim>\<open>cmd_export_manifest\<close> and \<^verbatim>\<open>cmd_import_manifest\<close>\<close>

text \<open>
  A manifest is a JSON document, as \<^verbatim>\<open>json.dump\<close> writes and \<^verbatim>\<open>json.load\<close> reads it;
  the commands are modelled on the document, not on the text of the file that holds
  it. Numbers are integers (a number with a fraction or an exponent is a Python
  \<^verbatim>\<open>float\<close> and outside the model). An object lists its members with distinct keys.
\<close>

datatype json =
    JNull | JBool bool | JNum int | JStr string | JArr "json list" | JObj "(string \<times> json) list"

fun json_of_sqlval :: "sqlval \<Rightarrow> json" where
  "json_of_sqlval SNull = JNull"
| "json_of_sqlval (SInt i) = JNum i"
| "json_of_sqlval (SText s) = JStr s"

definition row_dict :: "dotfile_row \<Rightarrow> json" where
  "row_dict r =
     JObj [(''id'', JNum (d_id r)), (''name'', JStr (d_name r)),
           (''source_path'', JStr (d_source_path r)), (''target_path'', JStr (d_target_path r)),
           (''category'', JStr (d_category r)), (''description'', JStr (d_description r)),
           (''auto_update'', json_of_sqlval (d_auto_update r))]"

text \<open>
  \<^verbatim>\<open>SELECT * FROM dotfiles ORDER BY category, name\<close>, written out as a list of
  dictionaries; the result is the document and the number of entries reported.
\<close>

definition cmd_export_manifest :: "store \<Rightarrow> json \<times> nat" where
  "cmd_export_manifest db =
     (let rows = sort_key (\<lambda>r. (d_category r, d_name r)) (dotfiles db);
          data = map row_dict rows
      in (JArr data, length data))"

text \<open>
  What \<^verbatim>\<open>for item in data\<close> runs over: the elements of a list, the keys of a dictionary,
  the characters of a string; anything else is not iterable.
\<close>

fun py_iter :: "json \<Rightarrow> exn + json list" where
  "py_iter (JArr xs) = Inr xs"
| "py_iter (JObj kvs) = Inr (map (\<lambda>kv. JStr (fst kv)) kvs)"
| "py_iter (JStr s) = Inr (map (\<lambda>c. JStr [c]) s)"
| "py_iter _ = Inl TypeError"

text \<open>\<^verbatim>\<open>item[k]\<close> for a string \<open>k\<close>, and \<^verbatim>\<open>item.get(k, default)\<close> on a dictionary.\<close>

fun py_getitem :: "json \<Rightarrow> string \<Rightarrow> exn + json" where
  "py_getitem (JObj kvs) k = (case map_of kvs k of Some v \<Rightarrow> Inr v | None \<Rightarrow> Inl KeyError)"
| "py_getitem _ k = Inl TypeError"

fun py_get :: "json \<Rightarrow> string \<Rightarrow> json \<Rightarrow> json" where
  "py_get (JObj kvs) k dflt = (case map_of kvs k of Some v \<Rightarrow> v | None \<Rightarrow> dflt)"
| "py_get _ k dflt = dflt"

text \<open>
  Binding a Python value to a statement parameter: \<^verbatim>\<open>None\<close> is \<^verbatim>\<open>NULL\<close>, a \<^verbatim>\<open>bool\<close>
  is an \<^verbatim>\<open>int\<close>, an \<^verbatim>\<open>int\<close> must fit 64 bits, lists and dictionaries are not supported.
\<close>

fun bind_param :: "json \<Rightarrow> exn + sqlval" where
  "bind_param JNull = Inr SNull"
| "bind_param (JBool b) = Inr (SInt (if b then 1 else 0))"
| "bind_param (JNum i) = (if - (2 ^ 63) \<le> i \<and> i < 2 ^ 63 then Inr (SInt i) else Inl OverflowError)"
| "bind_param (JStr s) = Inr (SText s)"
| "bind_param _ = Inl InterfaceError"

text \<open>
  One round of the loop body: the parameter tuple is built (a missing key or an item
  that is no dictionary raises), the values are bound, and \<^verbatim>\<open>INSERT OR IGNORE\<close> runs.
  \<open>Inl\<close> is an exception, which the loop swallows; \<open>Inr\<close> is the store after a
  statement that ran, whether it inserted the row or ignored it.
\<close>

definition and_then :: "exn + 'a \<Rightarrow> ('a \<Rightarrow> exn + 'b) \<Rightarrow> exn + 'b" where
  "and_then r f = (case r of Inl x \<Rightarrow> Inl x | Inr v \<Rightarrow> f v)"

definition import_item :: "store \<Rightarrow> json \<Rightarrow> exn + store" where
  "import_item db item =
     and_then (py_getitem item ''name'') (\<lambda>jname.
     and_then (py_getitem item ''source_path'') (\<lambda>jsource.
     and_then (py_getitem item ''target_path'') (\<lambda>jtarget.
     and_then (bind_param jname) (\<lambda>vname.
     and_then (bind_param jsource) (\<lambda>vsource.
     and_then (bind_param jtarget) (\<lambda>vtarget.
     and_then (bind_param (py_get item ''category'' (JStr ''tool''))) (\<lambda>vcategory.
     and_then (bind_param (py_get item ''description'' (JStr []))) (\<lambda>vdescription.
     and_then (bind_param (py_get item ''auto_update'' (JNum 0))) (\<lambda>vauto.
       (case insert_dotfile db vname vsource vtarget vcategory vdescription vauto of
          Some db' \<Rightarrow> Inr db'
        | None \<Rightarrow> Inr db))))))))))"

fun import_loop :: "store \<Rightarrow> nat \<Rightarrow> json list \<Rightarrow> store \<times> nat" where
  "import_loop db imported [] = (db, imported)"
| "import_loop db imported (item # rest) =
     (case import_item db item of
        Inr db' \<Rightarrow> import_loop db' (imported + 1) rest
      | Inl _ \<Rightarrow> import_loop db imported rest)"

text \<open>
  The result is the store and the two numbers of \<^verbatim>\<open>ok("Imported {imported}/{len(data)}
  entries")\<close>, or the exception of a document that cannot be iterated.
\<close>

definition cmd_import_manifest :: "store \<Rightarrow> json \<Rightarrow> exn + store \<times> nat \<times> nat" where
  "cmd_import_manifest db data =
     (case py_iter data of
        Inl x \<Rightarrow> Inl x
      | Inr items \<Rightarrow>
          (case import_loop db 0 items of (db', imported) \<Rightarrow> Inr (db', imported, length items)))"

section \<open>Invariants\<close>

text \<open>
  The components \<^verbatim>\<open>Path\<close> keeps: not empty, not \<^verbatim>\<open>.\<close>, and free of slashes.
\<close>

definition good_parts :: "string list \<Rightarrow> bool" where
  "good_parts ws = (\<forall>w\<in>set ws. w \<noteq> [] \<and> w \<noteq> ''.'' \<and> CHR ''/'' \<notin> set w)"

text \<open>
  What the schema guarantees of the rows of \<^verbatim>\<open>dotfiles\<close>: the names are pairwise
  distinct (\<^verbatim>\<open>UNIQUE\<close>), and \<open>auto_update\<close> holds what a column declared
  \<^verbatim>\<open>INTEGER NOT NULL\<close> lets through: a 64-bit integer, or a text that is no integer
  literal. The other columns are texts by their type in the model. \<open>entry_fields\<close>
  are the fields of an entry apart from its id.
\<close>

definition stored_auto :: "sqlval \<Rightarrow> bool" where
  "stored_auto v =
     (case v of
        SNull \<Rightarrow> False
      | SInt i \<Rightarrow> - (2 ^ 63) \<le> i \<and> i < 2 ^ 63
      | SText s \<Rightarrow> int_literal s = None)"

definition wf_dotfiles :: "dotfile_row list \<Rightarrow> bool" where
  "wf_dotfiles rows =
     (distinct (map d_name rows) \<and> list_all (\<lambda>r. stored_auto (d_auto_update r)) rows)"

definition entry_fields ::
  "dotfile_row \<Rightarrow> string \<times> string \<times> string \<times> string \<times> string \<times> sqlval" where
  "entry_fields r =
     (d_name r, d_source_path r, d_target_path r, d_category r, d_description r, d_auto_update r)"

section \<open>Concrete states\<close>

text \<open>
  Two registered entries, a snapshot taken of the second one, a file system that holds
  both source files, the arguments of a registration under a name that is taken, and a
  manifest with one item of that name.
\<close>

definition ex_row1 :: dotfile_row where
  "ex_row1 = \<lparr>d_id = 1, d_name = ''zshrc'', d_source_path = ''/dots/zshrc'',
     d_target_path = ''/home/.zshrc'', d_category = ''shell'', d_description = [],
     d_auto_update = SInt 0\<rparr>"

definition ex_row2 :: dotfile_row where
  "ex_row2 = \<lparr>d_id = 2, d_name = ''vimrc'', d_source_path = ''/dots/vimrc'',
     d_target_path = ''/home/.vimrc'', d_category = ''editor'', d_description = [],
     d_auto_update = SInt 1\<rparr>"

definition ex_store1 :: store where
  "ex_store1 = \<lparr>dotfiles = [ex_row1], dotfiles_seq = 1, snapshots = [], snapshots_seq = 0\<rparr>"

definition ex_snap_vimrc :: snapshot_row where
  "ex_snap_vimrc = \<lparr>s_id = 1, s_entry_id = 2, s_content_hash = hexdigest (sha256 [0x76]),
     s_content_b64 = ''dg=='', s_saved_at = ''2024-01-01T10:00:00'', s_notes = []\<rparr>"

definition ex_store2 :: store where
  "ex_store2 = \<lparr>dotfiles = [ex_row1, ex_row2], dotfiles_seq = 2,
     snapshots = [ex_snap_vimrc], snapshots_seq = 1\<rparr>"

definition ex_fs2 :: filesystem where
  "ex_fs2 = [[''dots''] \<mapsto> Dir, [''dots'', ''zshrc''] \<mapsto> File [0x7a],
             [''dots'', ''vimrc''] \<mapsto> File [0x76]]"

definition ex_args :: register_args where
  "ex_args = \<lparr>a_name = ''zshrc'', a_source = ''/other/zshrc'', a_target = ''/home/.zshrc2'',
     a_category = ''shell'', a_description = ''again'', a_auto = True\<rparr>"

definition ex_manifest :: json where
  "ex_manifest =
     JArr [JObj [(''name'', JStr ''zshrc''), (''source_path'', JStr ''/elsewhere/zshrc''),
                 (''target_path'', JStr ''/home/.zshrc'')]]"

text \<open>
  An entry whose target is its own source, a store that holds it, and a file system
  with a home directory in which the target of \<open>ex_row1\<close> is an ordinary file.
\<close>

definition ex_row_self :: dotfile_row where
  "ex_row_self = \<lparr>d_id = 1, d_name = ''zshrc'', d_source_path = ''/dots/zshrc'',
     d_target_path = ''/dots/zshrc'', d_category = ''shell'', d_description = [],
     d_auto_update = SInt 0\<rparr>"

definition ex_store_self :: store where
  "ex_store_self = \<lparr>dotfiles = [ex_row_self], dotfiles_seq = 1, snapshots = [], snapshots_seq = 0\<rparr>"

definition ex_fs_home :: filesystem where
  "ex_fs_home = [[''dots''] \<mapsto> Dir, [''dots'', ''zshrc''] \<mapsto> File [0x7a],
                 [''home''] \<mapsto> Dir, [''home'', ''.zshrc''] \<mapsto> File [0x6f]]"

text \<open>
  A store with one entry and two snapshots of it that carry the same time, the first of
  the byte \<^verbatim>\<open>!\<close>, the second of the byte \<^verbatim>\<open>z\<close> that the source file holds in
  \<open>ex_fs2\<close>; two ways for the engine to choose among rows with equal keys; and a diff
  program with a fixed output.
\<close>

definition ex_snap_a :: snapshot_row where
  "ex_snap_a = \<lparr>s_id = 1, s_entry_id = 1, s_content_hash = hexdigest (sha256 [0x21]),
     s_content_b64 = b64encode [0x21], s_saved_at = ''2024-03-03T12:00:00.000001'', s_notes = []\<rparr>"

definition ex_snap_b :: snapshot_row where
  "ex_snap_b = \<lparr>s_id = 2, s_entry_id = 1, s_content_hash = hexdigest (sha256 [0x7a]),
     s_content_b64 = b64encode [0x7a], s_saved_at = ''2024-03-03T12:00:00.000001'', s_notes = []\<rparr>"

definition ex_store_tie :: store where
  "ex_store_tie = \<lparr>dotfiles = [ex_row1], dotfiles_seq = 1,
     snapshots = [ex_snap_a, ex_snap_b], snapshots_seq = 2\<rparr>"

definition first_of :: "snapshot_row list \<Rightarrow> nat" where
  "first_of rows = 0"


definition ex_diff :: "byte list \<Rightarrow> exn + byte list \<Rightarrow> string" where
  "ex_diff old cur = ''--- old''"

section \<open>Facts about the codecs\<close>

lemma index_of_nth: "distinct xs \<Longrightarrow> n < length xs \<Longrightarrow> index_of (xs ! n) xs = Some n"
proof (induction xs arbitrary: n)
  case Nil
  then show ?case by simp
next
  case (Cons y ys)
  then show ?case by (cases n) auto
qed

lemma distinct_table: "distinct table_b2a_base64"
  by (simp add: table_b2a_base64_def)

lemma length_table: "length table_b2a_base64 = 64"
  by (simp add: table_b2a_base64_def)

lemma b2a_in_table: "s < 64 \<Longrightarrow> b2a s \<in> set table_b2a_base64"
proof -
  assume "s < 64"
  then have "unat s < 64" by (simp add: word_less_nat_alt)
  then show ?thesis by (simp add: b2a_def length_table)
qed

lemma a2b_b2a: "s < 64 \<Longrightarrow> table_a2b_base64 (b2a s) = Some s"
proof -
  assume "s < 64"
  then have "unat s < 64" by (simp add: word_less_nat_alt)
  then show ?thesis
    by (simp add: table_a2b_base64_def b2a_def index_of_nth distinct_table length_table)
qed

lemma b2a_not_pad: "s < 64 \<Longrightarrow> b2a s \<noteq> CHR ''=''"
proof -
  have "CHR ''='' \<notin> set table_b2a_base64" by (simp add: table_b2a_base64_def)
  moreover assume "s < 64"
  ultimately show ?thesis using b2a_in_table by metis
qed

lemma b2a_ascii: "s < 64 \<Longrightarrow> is_ascii (b2a s)"
proof -
  have "list_all is_ascii table_b2a_base64"
    by (simp add: table_b2a_base64_def is_ascii_def)
  moreover assume "s < 64"
  ultimately show ?thesis using b2a_in_table by (simp add: list_all_iff)
qed

lemma pad_ascii: "is_ascii CHR ''=''"
  by (simp add: is_ascii_def)

text \<open>Equations between bytes are decided bit by bit.\<close>

lemma byte_bit_ge8: "8 \<le> n \<Longrightarrow> \<not> bit (x :: byte) n"
  using bit_imp_le_length [of x n] by auto

lemma byte_eq_iff:
  "(x :: byte) = y \<longleftrightarrow>
     bit x 0 = bit y 0 \<and> bit x 1 = bit y 1 \<and> bit x 2 = bit y 2 \<and> bit x 3 = bit y 3 \<and>
     bit x 4 = bit y 4 \<and> bit x 5 = bit y 5 \<and> bit x 6 = bit y 6 \<and> bit x 7 = bit y 7"
  (is "_ \<longleftrightarrow> ?bits")
proof
  assume "x = y"
  then show ?bits by simp
next
  assume h: ?bits
  show "x = y"
  proof (rule bit_word_eqI)
    fix n
    assume "n < LENGTH(8)"
    then have "n < 8" by simp
    then consider "n = 0" | "n = 1" | "n = 2" | "n = 3" | "n = 4" | "n = 5" | "n = 6" | "n = 7"
      by arith
    then show "bit x n = bit y n" using h by cases simp_all
  qed
qed

lemma mask_as_take_bit:
  fixes a :: byte
  shows "a AND 3 = take_bit 2 a" "a AND 15 = take_bit 4 a" "a AND 63 = take_bit 6 a"
  by (simp_all add: take_bit_eq_mask mask_eq_exp_minus_1)

lemma lt64_iff: "(x :: byte) < 64 \<longleftrightarrow> take_bit 6 x = x"
  using mask_eq_iff_w2p [of 6 x] by (simp add: word_size take_bit_eq_mask)

lemma sextet_bounds: "sextet0 a < 64" "sextet1 a b < 64" "sextet2 b c < 64" "sextet3 c < 64"
  unfolding lt64_iff sextet0_def sextet1_def sextet2_def sextet3_def mask_as_take_bit
  by (simp_all add: byte_eq_iff bit_simps byte_bit_ge8)

lemma regroup:
  "push_bit 2 (sextet0 a) OR drop_bit 4 (sextet1 a b) = a"
  "push_bit 4 (sextet1 a b) AND 240 OR drop_bit 2 (sextet2 b c) = b"
  "push_bit 6 (sextet2 b c) AND 192 OR sextet3 c = c"
  unfolding sextet0_def sextet1_def sextet2_def sextet3_def mask_as_take_bit
  by (simp_all add: byte_eq_iff bit_simps byte_bit_ge8)

text \<open>Decoding inverts encoding.\<close>

lemma a2b_b2a_base64: "a2b_base64 0 0 0 (b2a_base64 bs) = Some bs"
proof (induction bs rule: b2a_base64.induct)
  case 1
  show ?case by simp
next
  case (2 a)
  show ?case by (simp add: sextet_bounds a2b_b2a b2a_not_pad regroup)
next
  case (3 a b)
  show ?case by (simp add: sextet_bounds a2b_b2a b2a_not_pad regroup)
next
  case (4 a b c rest)
  then show ?case by (simp add: sextet_bounds a2b_b2a b2a_not_pad regroup)
qed

lemma b2a_base64_ascii: "list_all is_ascii (b2a_base64 bs)"
  by (induction bs rule: b2a_base64.induct) (simp_all add: sextet_bounds b2a_ascii pad_ascii)

lemma b64_roundtrip: "b64decode (b64encode bs) = Some bs"
  by (simp add: b64decode_def b64encode_def b2a_base64_ascii a2b_b2a_base64)

text \<open>A digest has 32 bytes and 64 hexadecimal digits.\<close>

lemma length_sha256: "length (sha256 m) = 32"
  by (cases "foldl sha_block sha_init (chunks64 (sha_pad m))") (simp add: sha256_def)

lemma length_hexdigest: "length (hexdigest d) = 2 * length d"
  by (induction d) (simp_all add: hexdigest_def hex_byte_def)

lemma length_sha256_hex: "length (hexdigest (sha256 m)) = 64"
  by (simp add: length_hexdigest length_sha256)

lemma sha256_hex_nonempty: "hexdigest (sha256 m) \<noteq> []"
  using length_sha256_hex [of m] by auto



section \<open>Facts about path strings\<close>

text \<open>
  The operating system reads the string of a \<^verbatim>\<open>Path\<close> back into the components the
  \<^verbatim>\<open>Path\<close> holds; the parent of a path is the path without its last component; a
  suffix appended to the string is appended to the last component.
\<close>

lemma split_slash_nonempty: "split_slash s \<noteq> []"
  by (induction s) (auto split: list.splits)

lemma split_slash_noslash: "w \<in> set (split_slash s) \<Longrightarrow> CHR ''/'' \<notin> set w"
proof (induction s arbitrary: w)
  case Nil
  then show ?case by simp
next
  case (Cons c cs)
  then show ?case
    by (cases "split_slash cs") (auto simp: split_slash_nonempty split: if_splits)
qed

lemma split_slash_word: "CHR ''/'' \<notin> set w \<Longrightarrow> split_slash (w @ CHR ''/'' # r) = w # split_slash r"
  by (induction w) auto

lemma split_slash_single: "CHR ''/'' \<notin> set w \<Longrightarrow> split_slash w = [w]"
  by (induction w) auto

lemma split_join:
  "\<forall>w\<in>set ws. CHR ''/'' \<notin> set w \<Longrightarrow> ws \<noteq> [] \<Longrightarrow> split_slash (join_slash ws) = ws"
proof (induction ws rule: join_slash.induct)
  case 1
  then show ?case by simp
next
  case (2 w)
  then show ?case by (simp add: split_slash_single)
next
  case (3 w v va)
  then show ?case by (simp add: split_slash_word)
qed

lemma good_parts_Path: "good_parts (parts (Path s))"
  by (auto simp: good_parts_def Path_def dest: split_slash_noslash)

lemma good_parts_butlast: "good_parts ws \<Longrightarrow> good_parts (butlast ws)"
  by (auto simp: good_parts_def dest: in_set_butlastD)

lemma filter_good: "good_parts ws \<Longrightarrow> filter (\<lambda>w. w \<noteq> [] \<and> w \<noteq> ''.'') ws = ws"
  by (induction ws) (auto simp: good_parts_def)

lemma os_key_path_str:
  assumes "good_parts (parts p)"
  shows "os_key (path_str p) = parts p"
proof (cases "parts p = []")
  case True
  then show ?thesis by (simp add: os_key_def path_str_def Path_def)
next
  case False
  from assms have ns: "\<forall>w\<in>set (parts p). CHR ''/'' \<notin> set w" by (simp add: good_parts_def)
  have sj: "split_slash (join_slash (parts p)) = parts p" by (rule split_join [OF ns False])
  show ?thesis
    using False sj filter_good [OF assms]
    by (simp add: os_key_def path_str_def Path_def)
qed

lemma key_Path: "key (Path s) = parts (Path s)"
  by (simp add: key_def os_key_path_str good_parts_Path)

lemma os_key_str_Path: "os_key (path_str (Path s)) = key (Path s)"
  by (simp add: key_def)

lemma key_parent: "key (parent (Path s)) = butlast (key (Path s))"
proof -
  have "good_parts (parts (parent (Path s)))"
    by (simp add: parent_def good_parts_butlast good_parts_Path)
  then have "key (parent (Path s)) = parts (parent (Path s))"
    by (simp add: key_def os_key_path_str)
  then show ?thesis by (simp add: key_Path parent_def)
qed

lemma join_slash_suffix:
  "ws \<noteq> [] \<Longrightarrow> join_slash ws @ sfx = join_slash (butlast ws @ [last ws @ sfx])"
  by (induction ws rule: join_slash.induct) auto

lemma os_key_suffix:
  assumes "parts (Path s) \<noteq> []" and "sfx \<noteq> []" and "CHR ''/'' \<notin> set sfx"
  shows "os_key (path_str (Path s) @ sfx) =
           butlast (key (Path s)) @ [last (key (Path s)) @ sfx]"
proof -
  let ?ws = "parts (Path s)"
  let ?p = "(Path s)\<lparr>parts := butlast ?ws @ [last ?ws @ sfx]\<rparr>"
  from assms(1) have str: "path_str (Path s) @ sfx = path_str ?p"
    by (simp add: path_str_def join_slash_suffix)
  have g: "good_parts ?ws" by (rule good_parts_Path)
  from assms(1) have "last ?ws \<in> set ?ws" by simp
  with g have l: "last ?ws \<noteq> []" "CHR ''/'' \<notin> set (last ?ws)" by (auto simp: good_parts_def)
  from l(1) assms(2) have "last ?ws @ sfx \<noteq> ''.''"
    by (cases "last ?ws"; cases sfx) auto
  with l assms(3) good_parts_butlast [OF g] have "good_parts (parts ?p)"
    by (auto simp: good_parts_def)
  from os_key_path_str [OF this] show ?thesis by (simp add: str key_Path)
qed

section \<open>Facts about the file system\<close>

lemma follow_numeral:
  "follow (numeral v) fs k =
     (case lstat fs k of
        Some (Symlink text) \<Rightarrow> follow (pred_numeral v) fs (link_target k text)
      | _ \<Rightarrow> Some k)"
  by (simp add: numeral_eq_Suc)

lemma follow_start: "follow n fs k = Some k' \<Longrightarrow> lstat fs k = None \<Longrightarrow> k' = k"
  by (cases n) auto

lemma follow_not_link: "follow n fs k = Some k' \<Longrightarrow> lstat fs k' \<noteq> Some (Symlink t)"
  by (induction n arbitrary: k) (auto split: option.splits node.splits)

lemma stat_lstat: "stat fs k = Some r \<Longrightarrow> lstat fs k \<noteq> None"
  by (auto simp: stat_def split: option.splits dest: follow_start)

lemma stat_plain: "lstat fs k = Some n \<Longrightarrow> \<forall>t. n \<noteq> Symlink t \<Longrightarrow> stat fs k = Some (k, n)"
  by (cases n) (auto simp: stat_def follow_numeral)

lemma stat_absent: "lstat fs k = None \<Longrightarrow> stat fs k = None"
  by (simp add: stat_def follow_numeral)

lemma is_dir_iff: "is_dir fs k \<longleftrightarrow> (\<exists>k'. follow 40 fs k = Some k' \<and> lstat fs k' = Some Dir)"
  by (auto simp: is_dir_def stat_def split: option.splits node.splits)

lemma is_dir_lstat: "is_dir fs k \<Longrightarrow> lstat fs k \<noteq> None"
  by (auto simp: is_dir_def split: option.splits dest: stat_lstat)

lemma read_bytes_exists: "read_bytes fs k = Inr c \<Longrightarrow> path_exists fs k"
  by (auto simp: read_bytes_def path_exists_def stat_def split: option.splits node.splits)

text \<open>
  Entering a node where there was none, or writing a file, leaves every walk along
  symbolic links where it was.
\<close>

lemma follow_fresh:
  "follow n fs k = Some k' \<Longrightarrow> lstat fs k' \<noteq> None \<Longrightarrow> lstat fs t = None \<Longrightarrow>
     follow n (fs(t \<mapsto> v)) k = Some k'"
proof (induction n arbitrary: k)
  case 0
  then show ?case by (auto simp: lstat_def split: option.splits node.splits if_splits)
next
  case (Suc n)
  then show ?case by (auto simp: lstat_def split: option.splits node.splits if_splits)
qed

lemma is_dir_fresh: "is_dir fs k \<Longrightarrow> lstat fs t = None \<Longrightarrow> is_dir (fs(t \<mapsto> v)) k"
proof -
  assume d: "is_dir fs k" and t: "lstat fs t = None"
  from d obtain k' where f: "follow 40 fs k = Some k'" and l: "lstat fs k' = Some Dir"
    by (auto simp: is_dir_iff)
  from l have "lstat fs k' \<noteq> None" by simp
  from follow_fresh [OF f this t] have f': "follow 40 (fs(t \<mapsto> v)) k = Some k'" .
  from l t have "lstat (fs(t \<mapsto> v)) k' = Some Dir"
    by (auto simp: lstat_def split: if_splits)
  with f' show ?thesis by (auto simp: is_dir_iff)
qed

lemma follow_write_end:
  assumes "follow n fs k = Some k'" and "k' \<noteq> []"
  shows "follow n (fs(k' \<mapsto> File c)) k = Some k'"
  using assms
proof (induction n arbitrary: k)
  case 0
  then show ?case by (auto simp: lstat_def split: option.splits node.splits if_splits)
next
  case (Suc n)
  show ?case
  proof (cases "k = k'")
    case True
    with Suc.prems show ?thesis by (simp add: lstat_def)
  next
    case False
    with Suc show ?thesis
      by (auto simp: lstat_def split: option.splits node.splits if_splits)
  qed
qed

lemma write_bytes_read_bytes:
  assumes "write_bytes fs k c = Inr fs'"
  shows "read_bytes fs' k = Inr c"
proof -
  from assms obtain k' where f: "follow 40 fs k = Some k'"
    by (auto simp: write_bytes_def split: option.splits)
  from assms f have ne: "k' \<noteq> []"
    by (auto simp: write_bytes_def lstat_def split: option.splits node.splits)
  from assms f have fs': "fs' = fs(k' \<mapsto> File c)"
    by (auto simp: write_bytes_def split: option.splits node.splits)
  from follow_write_end [OF f ne] have "follow 40 fs' k = Some k'" by (simp add: fs')
  with ne show ?thesis by (simp add: read_bytes_def fs' lstat_def)
qed

text \<open>Making directories and links.\<close>

lemma is_dir_created: "lstat fs k = None \<Longrightarrow> is_dir (fs(k \<mapsto> Dir)) k"
  by (auto simp: is_dir_def stat_def follow_numeral lstat_def split: if_splits)

lemma os_mkdir_is_dir: "os_mkdir fs k = Inr fs' \<Longrightarrow> is_dir fs' k"
  by (auto simp: os_mkdir_def is_dir_created split: if_splits option.splits)

lemma mkdir_parents_is_dir: "mkdir_parents fs k = Inr fs' \<Longrightarrow> is_dir fs' k"
  by (subst (asm) mkdir_parents.simps)
     (auto split: sum.splits exn.splits if_splits dest: os_mkdir_is_dir)

lemma mkdir_parents_existing: "is_dir fs k \<Longrightarrow> mkdir_parents fs k = Inr fs"
  by (subst mkdir_parents.simps) (auto simp: os_mkdir_def dest: is_dir_lstat)

lemma os_symlink_result:
  assumes "os_symlink fs text k = Inr fs'"
  shows "lstat fs' k = Some (Symlink text) \<and> is_dir fs' (butlast k)"
proof -
  from assms have n: "lstat fs k = None" and fs': "fs' = fs(k \<mapsto> Symlink text)"
    and d: "is_dir fs (butlast k)"
    by (auto simp: os_symlink_def parent_error_def is_dir_def
        split: if_splits option.splits node.splits prod.splits)
  from n have "k \<noteq> []" by (auto simp: lstat_def)
  then have "lstat fs' k = Some (Symlink text)" by (simp add: fs' lstat_def)
  with is_dir_fresh [OF d n] fs' show ?thesis by simp
qed

section \<open>Facts about the store\<close>

lemma insert_dotfile_names:
  "insert_dotfile db vn vs vt vc vd va = Some db' \<Longrightarrow>
     \<exists>r. dotfiles db' = dotfiles db @ [r] \<and> d_name r \<notin> set (map d_name (dotfiles db))"
  by (auto simp: insert_dotfile_def Let_def split: option.splits if_splits sqlval.splits)

lemma insert_dotfile_distinct:
  "distinct (map d_name (dotfiles db)) \<Longrightarrow> insert_dotfile db vn vs vt vc vd va = Some db' \<Longrightarrow>
     distinct (map d_name (dotfiles db'))"
  by (drule insert_dotfile_names) auto

lemma insert_dotfile_duplicate:
  "n \<in> set (map d_name (dotfiles db)) \<Longrightarrow> insert_dotfile db (SText n) vs vt vc vd va = None"
  by (auto simp: insert_dotfile_def Let_def split: option.splits sqlval.splits)

lemma distinct_count_one:
  "distinct (map f xs) \<Longrightarrow> x \<in> set xs \<Longrightarrow> length (filter (\<lambda>r. f r = f x) xs) = 1"
proof (induction xs)
  case Nil
  then show ?case by simp
next
  case (Cons y ys)
  show ?case
  proof (cases "y = x")
    case True
    with Cons.prems have "\<forall>r\<in>set ys. f r \<noteq> f x"
      by (metis distinct.simps(2) image_eqI list.simps(9) set_map)
    then have "filter (\<lambda>r. f r = f x) ys = []" by (simp add: filter_empty_conv)
    with True show ?thesis by simp
  next
    case False
    with Cons.prems have "x \<in> set ys" "f y \<noteq> f x" by auto
    with Cons show ?thesis by simp
  qed
qed

lemma fold_max_ge: "(i::int) \<in> set ids \<Longrightarrow> i \<le> fold max ids s"
proof (induction ids arbitrary: s)
  case Nil
  then show ?case by simp
next
  case (Cons a ids)
  have mono: "\<And>t. t \<le> fold max ids t"
  proof -
    fix t :: int
    show "t \<le> fold max ids t"
    proof (induction ids arbitrary: t)
      case Nil show ?case by simp
    next
      case (Cons b bs)
      have "t \<le> max b t" by simp
      also have "\<dots> \<le> fold max bs (max b t)" by (rule Cons)
      finally show ?case by simp
    qed
  qed
  from Cons.prems consider "i = a" | "i \<in> set ids" by auto
  then show ?case
  proof cases
    case 1
    have "a \<le> max a s" by simp
    also have "\<dots> \<le> fold max ids (max a s)" by (rule mono)
    finally show ?thesis using 1 by simp
  next
    case 2
    then show ?thesis using Cons.IH by simp
  qed
qed

lemma next_rowid_fresh: "i \<in> set ids \<Longrightarrow> i < next_rowid s ids"
  using fold_max_ge [of i ids s] by (simp add: next_rowid_def)

lemma find_fresh_last:
  "\<forall>x\<in>set xs. \<not> P x \<Longrightarrow> P y \<Longrightarrow> find P (xs @ [y]) = Some y"
  by (induction xs) auto

lemma select_inserted_snapshot:
  "select_snapshot (insert_snapshot db e h b now notes)
     (s_id (last (snapshots (insert_snapshot db e h b now notes)))) =
   Some (last (snapshots (insert_snapshot db e h b now notes)))"
proof -
  let ?new = "next_rowid (snapshots_seq db) (map s_id (snapshots db))"
  have "\<forall>x\<in>set (snapshots db). s_id x \<noteq> ?new"
    using next_rowid_fresh [of _ "map s_id (snapshots db)" "snapshots_seq db"] by fastforce
  then show ?thesis
    by (simp add: select_snapshot_def insert_snapshot_def Let_def find_fresh_last)
qed

text \<open>The invariant holds in the empty store and in every store the commands build.\<close>

lemma int_literal_stored: "int_literal s = Some i \<Longrightarrow> stored_auto (SInt i)"
  by (auto simp: stored_auto_def int_literal_def Let_def split: if_splits)

lemma entry_fields_id: "entry_fields (r\<lparr>d_id := i\<rparr>) = entry_fields r"
  by (simp add: entry_fields_def)

lemma stored_auto_affinity: "stored_auto v \<Longrightarrow> integer_affinity v = v"
  by (cases v) (auto simp: stored_auto_def)

lemma stored_auto_bind: "stored_auto v \<Longrightarrow> bind_param (json_of_sqlval v) = Inr v"
  by (cases v) (auto simp: stored_auto_def)

lemma bind_param_affinity:
  assumes "bind_param j = Inr v" and "integer_affinity v \<noteq> SNull"
  shows "stored_auto (integer_affinity v)"
proof (cases j)
  case (JStr s)
  with assms have v: "v = SText s" by simp
  show ?thesis
  proof (cases "int_literal s")
    case None
    then show ?thesis by (simp add: v stored_auto_def)
  next
    case (Some i)
    then show ?thesis by (simp add: v int_literal_stored)
  qed
qed (use assms in \<open>auto simp: stored_auto_def split: if_splits\<close>)

lemma wf_empty: "wf_dotfiles (dotfiles empty_store)"
  by (simp add: wf_dotfiles_def empty_store_def)

lemma insert_dotfile_wf:
  assumes "wf_dotfiles (dotfiles db)" and "insert_dotfile db vn vs vt vc vd va = Some db'"
      and "bind_param j = Inr va"
  shows "wf_dotfiles (dotfiles db')"
proof -
  from assms(2) obtain r where r: "dotfiles db' = dotfiles db @ [r]"
    "d_name r \<notin> set (map d_name (dotfiles db))"
    by (auto dest: insert_dotfile_names)
  from assms(2) r(1) have "d_auto_update r = integer_affinity va" "integer_affinity va \<noteq> SNull"
    by (auto simp: insert_dotfile_def Let_def split: option.splits if_splits sqlval.splits)
  with bind_param_affinity [OF assms(3)] have "stored_auto (d_auto_update r)" by simp
  with assms(1) r show ?thesis by (simp add: wf_dotfiles_def)
qed

lemma cmd_register_wf:
  "wf_dotfiles (dotfiles db) \<Longrightarrow> wf_dotfiles (dotfiles (fst (cmd_register db args)))"
  by (auto simp: cmd_register_def split: option.splits
      dest: insert_dotfile_wf [where j = "JBool (a_auto args)"])

lemma import_item_wf:
  "wf_dotfiles (dotfiles db) \<Longrightarrow> import_item db item = Inr db' \<Longrightarrow> wf_dotfiles (dotfiles db')"
  by (auto simp: import_item_def and_then_def split: sum.splits option.splits
      dest: insert_dotfile_wf)

lemma import_loop_wf:
  "wf_dotfiles (dotfiles db) \<Longrightarrow> wf_dotfiles (dotfiles (fst (import_loop db n items)))"
  by (induction items arbitrary: db n) (auto split: sum.splits dest: import_item_wf)



section \<open>Evaluating the commands on the concrete states\<close>

lemmas fs_eval = key_def os_key_def Path_def path_str_def parent_def path_exists_def stat_def
  follow_numeral lstat_def is_symlink_def is_dir_def readlink_def parent_error_def link_target_def
  read_bytes_def write_bytes_def copy2_def samefile_def os_symlink_def os_mkdir_def

lemmas ex_defs = ex_row1_def ex_row2_def ex_store1_def ex_snap_vimrc_def ex_store2_def ex_fs2_def
  ex_args_def ex_manifest_def

lemmas link_eval = cmd_link_def select_dotfile_def row_to_entry_def fs_eval mkdir_parents.simps
  shutil_move_def os_rename_def move_tree_def Let_def

lemma b64decode_dg: "b64decode ''dg=='' = Some [0x76]"
  by (simp add: b64decode_def is_ascii_def table_a2b_base64_def table_b2a_base64_def)

lemma ex_candidates: "latest_candidates ex_store_tie 1 = [ex_snap_a, ex_snap_b]"
  by (simp add: latest_candidates_def ex_store_tie_def ex_snap_a_def ex_snap_b_def)

lemma ex_latest_first: "select_latest first_of ex_store_tie 1 = Some ex_snap_a"
  by (simp add: select_latest_def ex_candidates first_of_def)



section \<open>C1: restoring from a snapshot of another entry\<close>

text \<open>
  \<^verbatim>\<open>cmd_restore\<close> reports an unknown entry and an unknown snapshot id, each without
  touching the file system.
\<close>

lemma restore_entry_not_found:
  "select_dotfile db entry_id = None \<Longrightarrow>
     cmd_restore db fs entry_id snapshot_id = (fs, RestoreEntryNotFound)"
  by (simp add: cmd_restore_def)

lemma restore_snapshot_not_found:
  "select_dotfile db entry_id = Some row \<Longrightarrow> select_snapshot db snapshot_id = None \<Longrightarrow>
     cmd_restore db fs entry_id snapshot_id = (fs, SnapshotNotFound)"
  by (simp add: cmd_restore_def Let_def)

text \<open>
  Claim C1. The claim asks \<^verbatim>\<open>cmd_restore\<close> also to treat a snapshot of another entry
  as not found. The command looks the snapshot up by its id alone: in \<open>ex_store2\<close>
  snapshot 1 belongs to entry 2, and restoring entry 1 from it succeeds and puts the
  other entry's bytes into the source file of entry 1.
\<close>

theorem restore_foreign_snapshot:
  "s_entry_id ex_snap_vimrc \<noteq> 1 \<and>
   select_snapshot ex_store2 1 = Some ex_snap_vimrc \<and>
   snd (cmd_restore ex_store2 ex_fs2 1 1) = Restored \<and>
   read_bytes (fst (cmd_restore ex_store2 ex_fs2 1 1)) [''dots'', ''zshrc''] = Inr [0x76]"
  by (simp add: cmd_restore_def ex_defs select_dotfile_def select_snapshot_def row_to_entry_def
      b64decode_dg fs_eval)

section \<open>C2: backup, overwrite, restore\<close>

text \<open>
  Claim C2. Let the source file of an entry hold the bytes \<open>C\<close>. After \<^verbatim>\<open>cmd_backup\<close>,
  after the source file is overwritten with any bytes \<open>X\<close>, and after \<^verbatim>\<open>cmd_restore\<close>
  from the snapshot the backup created has run to its end, the source file holds
  exactly \<open>C\<close> again. (The backup always succeeds here; the snapshot it creates is the
  last row of the table.)
\<close>

theorem backup_restore_roundtrip:
  assumes "select_dotfile db entry_id = Some row"
      and "read_bytes fs (key (Path (d_source_path row))) = Inr C"
      and "cmd_backup db fs now entry_id notes = (db1, r)"
      and "write_bytes fs (key (Path (d_source_path row))) X = Inr fs1"
      and "cmd_restore db1 fs1 entry_id (s_id (last (snapshots db1))) = (fs2, Restored)"
  shows "r = SnapshotSaved \<and> read_bytes fs2 (key (Path (d_source_path row))) = Inr C"
proof -
  let ?k = "key (Path (d_source_path row))"
  let ?db1 = "insert_snapshot db entry_id (hexdigest (sha256 C)) (b64encode C) now notes"
  from assms(1,2,3) read_bytes_exists [OF assms(2)]
  have b: "db1 = ?db1" "r = SnapshotSaved"
    by (simp_all add: cmd_backup_def row_to_entry_def Let_def)
  have sel: "select_dotfile db1 entry_id = Some row"
    using assms(1) by (simp add: b select_dotfile_def insert_snapshot_def Let_def)
  have snap: "select_snapshot db1 (s_id (last (snapshots db1))) = Some (last (snapshots db1))"
    unfolding b by (rule select_inserted_snapshot)
  have content: "b64decode (s_content_b64 (last (snapshots db1))) = Some C"
    by (simp add: b insert_snapshot_def Let_def b64_roundtrip)
  from assms(5) obtain fsx where "write_bytes fsx ?k C = Inr fs2"
    by (auto simp: cmd_restore_def sel snap content row_to_entry_def Let_def
        split: sum.splits if_splits)
  then have "read_bytes fs2 ?k = Inr C" by (rule write_bytes_read_bytes)
  with b show ?thesis by simp
qed

theorem backup_restore_roundtrip_witness:
  "read_bytes
     (fst (cmd_restore (fst (cmd_backup ex_store2 ex_fs2 ''2024-02-02T09:30:00'' 1 ''before edit''))
             (ex_fs2([''dots'', ''zshrc''] \<mapsto> File [0x21, 0x21])) 1 2))
     [''dots'', ''zshrc''] = Inr [0x7a]"
proof -
  let ?db1 = "fst (cmd_backup ex_store2 ex_fs2 ''2024-02-02T09:30:00'' 1 ''before edit'')"
  let ?fs1 = "ex_fs2([''dots'', ''zshrc''] \<mapsto> File [0x21, 0x21])"
  have k: "key (Path (d_source_path ex_row1)) = [''dots'', ''zshrc'']"
    by (simp add: ex_defs fs_eval)
  have 1: "select_dotfile ex_store2 1 = Some ex_row1"
    by (simp add: ex_defs select_dotfile_def)
  have 2: "read_bytes ex_fs2 (key (Path (d_source_path ex_row1))) = Inr [0x7a]"
    unfolding k by (simp add: ex_defs fs_eval)
  have 3: "cmd_backup ex_store2 ex_fs2 ''2024-02-02T09:30:00'' 1 ''before edit'' = (?db1, SnapshotSaved)"
    using 1 2 read_bytes_exists [OF 2] by (simp add: cmd_backup_def row_to_entry_def Let_def)
  have 4: "write_bytes ex_fs2 (key (Path (d_source_path ex_row1))) [0x21, 0x21] = Inr ?fs1"
    unfolding k by (simp add: ex_defs fs_eval)
  have id: "s_id (last (snapshots ?db1)) = 2"
    using 1 2 read_bytes_exists [OF 2]
    by (simp add: cmd_backup_def row_to_entry_def Let_def insert_snapshot_def next_rowid_def ex_defs)
  have 5: "cmd_restore ?db1 ?fs1 1 (s_id (last (snapshots ?db1))) =
             (fst (cmd_restore ?db1 ?fs1 1 2), Restored)"
    unfolding id using 1 2 read_bytes_exists [OF 2]
    by (simp add: cmd_backup_def cmd_restore_def row_to_entry_def Let_def insert_snapshot_def
        next_rowid_def select_dotfile_def select_snapshot_def b64_roundtrip ex_defs fs_eval)
  from backup_restore_roundtrip [OF 1 2 3 4 5] show ?thesis by (simp add: k)
qed

text \<open>
  The restore does run to its end in the ordinary situation: the source is a regular
  file in an existing directory and nothing stands at \<^verbatim>\<open><source>.pre-restore\<close>. The
  overwritten bytes are kept there, and the source holds the snapshot's bytes.
\<close>

lemma restore_completes:
  assumes "select_dotfile db entry_id = Some row"
      and "select_snapshot db snapshot_id = Some snap"
      and "b64decode (s_content_b64 snap) = Some content"
      and "lstat fs (key (Path (d_source_path row))) = Some (File x)"
      and "is_dir fs (butlast (key (Path (d_source_path row))))"
      and "lstat fs (os_key (path_str (Path (d_source_path row)) @ ''.pre-restore'')) = None"
  shows "cmd_restore db fs entry_id snapshot_id =
           (fs(os_key (path_str (Path (d_source_path row)) @ ''.pre-restore'') \<mapsto> File x,
               key (Path (d_source_path row)) \<mapsto> File content), Restored)"
proof -
  let ?k = "key (Path (d_source_path row))"
  let ?pre = "os_key (path_str (Path (d_source_path row)) @ ''.pre-restore'')"
  from assms(4) have kne: "?k \<noteq> []" by (auto simp: lstat_def)
  then have pne: "parts (Path (d_source_path row)) \<noteq> []" by (simp add: key_Path)
  have pre: "?pre = butlast ?k @ [last ?k @ ''.pre-restore'']"
    by (rule os_key_suffix [OF pne]) simp_all
  from kne have "?k = butlast ?k @ [last ?k]" by simp
  then have neq: "?pre \<noteq> ?k" unfolding pre by (metis append1_eq_conv self_append_conv list.distinct(1))
  have bl: "butlast ?pre = butlast ?k" by (simp add: pre)
  have pne': "?pre \<noteq> []" by (simp add: pre)
  have ex: "path_exists fs ?k"
    using stat_plain [OF assms(4)] by (simp add: path_exists_def)
  have rd: "read_bytes fs ?k = Inr x"
    using assms(4) by (simp add: read_bytes_def follow_numeral)
  from assms(5) have pe: "parent_error fs ?pre = None"
    by (auto simp: parent_error_def bl is_dir_def split: option.splits node.splits prod.splits)
  have wr: "write_bytes fs ?pre x = Inr (fs(?pre \<mapsto> File x))"
    using assms(6) pe by (simp add: write_bytes_def follow_numeral)
  have cp: "copy2 fs ?k ?pre = Inr (fs(?pre \<mapsto> File x))"
    using stat_absent [OF assms(6)] rd wr
    by (simp add: copy2_def samefile_def Let_def split: option.splits)
  have l2: "lstat (fs(?pre \<mapsto> File x)) ?k = Some (File x)"
    using assms(4) neq kne by (auto simp: lstat_def split: if_splits)
  have w2: "write_bytes (fs(?pre \<mapsto> File x)) ?k content =
              Inr (fs(?pre \<mapsto> File x, ?k \<mapsto> File content))"
    using l2 by (simp add: write_bytes_def follow_numeral)
  show ?thesis
    using ex cp w2
    by (simp add: cmd_restore_def assms(1,2,3) row_to_entry_def Let_def os_key_str_Path)
qed

lemma follow_overwrite:
  "lstat fs t = Some (File a) \<Longrightarrow> follow n (fs(t \<mapsto> File b)) k = follow n fs k"
  by (induction n arbitrary: k) (auto simp: lstat_def split: option.splits node.splits if_splits)

lemma is_dir_overwrite:
  "lstat fs t = Some (File a) \<Longrightarrow> is_dir (fs(t \<mapsto> File b)) k = is_dir fs k"
  by (auto simp: is_dir_iff follow_overwrite) (auto simp: lstat_def split: if_splits)

lemma backup_restore_completes:
  assumes "select_dotfile db entry_id = Some row"
      and "lstat fs (key (Path (d_source_path row))) = Some (File C)"
      and "is_dir fs (butlast (key (Path (d_source_path row))))"
      and "lstat fs (os_key (path_str (Path (d_source_path row)) @ ''.pre-restore'')) = None"
  shows "\<exists>db1. cmd_backup db fs now entry_id notes = (db1, SnapshotSaved) \<and>
           cmd_restore db1 (fs(key (Path (d_source_path row)) \<mapsto> File X)) entry_id
               (s_id (last (snapshots db1))) =
             ((fs(key (Path (d_source_path row)) \<mapsto> File X))
                (os_key (path_str (Path (d_source_path row)) @ ''.pre-restore'') \<mapsto> File X,
                 key (Path (d_source_path row)) \<mapsto> File C),
              Restored)"
proof -
  let ?k = "key (Path (d_source_path row))"
  let ?pre = "os_key (path_str (Path (d_source_path row)) @ ''.pre-restore'')"
  let ?fs1 = "fs(?k \<mapsto> File X)"
  let ?db1 = "insert_snapshot db entry_id (hexdigest (sha256 C)) (b64encode C) now notes"
  from assms(2) have kne: "?k \<noteq> []" by (auto simp: lstat_def)
  from assms(2,4) have neq: "?pre \<noteq> ?k" by auto
  have rd: "read_bytes fs ?k = Inr C"
    using assms(2) by (simp add: read_bytes_def follow_numeral)
  have b: "cmd_backup db fs now entry_id notes = (?db1, SnapshotSaved)"
    using rd read_bytes_exists [OF rd] by (simp add: cmd_backup_def assms(1) row_to_entry_def Let_def)
  have sel: "select_dotfile ?db1 entry_id = Some row"
    using assms(1) by (simp add: select_dotfile_def insert_snapshot_def Let_def)
  have snap: "select_snapshot ?db1 (s_id (last (snapshots ?db1))) = Some (last (snapshots ?db1))"
    by (rule select_inserted_snapshot)
  have dec: "b64decode (s_content_b64 (last (snapshots ?db1))) = Some C"
    by (simp add: insert_snapshot_def Let_def b64_roundtrip)
  have l1: "lstat ?fs1 ?k = Some (File X)" using kne by (simp add: lstat_def)
  have d1: "is_dir ?fs1 (butlast ?k)" using assms(3) by (simp add: is_dir_overwrite [OF assms(2)])
  have f1: "lstat ?fs1 ?pre = None" using assms(4) neq by (auto simp: lstat_def split: if_splits)
  from restore_completes [OF sel snap dec l1 d1 f1] b show ?thesis by blast
qed

section \<open>C3: the count reported by an import\<close>

text \<open>
  Importing a list always returns, with the length of the list as the total and at most
  as many items counted; an item that lacks one of the three required fields raises
  \<^verbatim>\<open>KeyError\<close>, and the loop goes on with the store and the counter as they were.
\<close>

lemma import_loop_count: "snd (import_loop db n items) \<le> n + length items"
proof (induction items arbitrary: db n)
  case Nil
  show ?case by simp
next
  case (Cons item items)
  show ?case
  proof (cases "import_item db item")
    case (Inl e)
    with Cons [of db n] show ?thesis by simp
  next
    case (Inr db')
    with Cons [of db' "n + 1"] show ?thesis by simp
  qed
qed

lemma import_list_returns:
  "\<exists>db' imported. cmd_import_manifest db (JArr items) = Inr (db', imported, length items) \<and>
                   imported \<le> length items"
  using import_loop_count [of db 0 items]
  by (cases "import_loop db 0 items") (simp add: cmd_import_manifest_def)

lemma import_item_missing_field:
  "map_of kvs ''name'' = None \<or> map_of kvs ''source_path'' = None \<or>
   map_of kvs ''target_path'' = None \<Longrightarrow>
     import_item db (JObj kvs) = Inl KeyError"
  by (auto simp: import_item_def and_then_def split: option.splits sum.splits)

lemma import_loop_skips:
  "import_item db item = Inl e \<Longrightarrow> import_loop db n (item # rest) = import_loop db n rest"
  by simp


section \<open>C4: linking twice\<close>

text \<open>
  Claim C4, as amended. When a first \<^verbatim>\<open>cmd_link\<close> of an entry has run to its end
  (it linked the target or found it linked) and the source still exists afterwards, a
  second \<^verbatim>\<open>cmd_link\<close> reports "already linked" and returns the file system the first
  call left: the target is a symbolic link whose text is the source path, and the
  second call makes no directory, renames nothing and creates no link.
\<close>

theorem link_twice:
  assumes "select_dotfile db entry_id = Some row"
      and "cmd_link db fs entry_id = (fs1, r1)"
      and "r1 = AlreadyLinked \<or> r1 = Linked b"
      and "path_exists fs1 (key (Path (d_source_path row)))"
  shows "cmd_link db fs1 entry_id = (fs1, AlreadyLinked) \<and>
         lstat fs1 (key (Path (d_target_path row))) =
           Some (Symlink (path_str (Path (d_source_path row))))"
proof -
  let ?T = "Path (d_target_path row)"
  let ?S = "Path (d_source_path row)"
  have state: "lstat fs1 (key ?T) = Some (Symlink (path_str ?S)) \<and> is_dir fs1 (key (parent ?T))"
    using assms(2,3)
    by (auto simp: cmd_link_def assms(1) row_to_entry_def Let_def os_key_str_Path key_parent
          is_symlink_def readlink_def
        split: if_splits sum.splits option.splits node.splits
        dest: os_symlink_result mkdir_parents_is_dir)
  then have l: "lstat fs1 (key ?T) = Some (Symlink (path_str ?S))"
    and d: "is_dir fs1 (key (parent ?T))" by simp_all
  from l have "cmd_link db fs1 entry_id = (fs1, AlreadyLinked)"
    by (simp add: cmd_link_def assms(1,4) row_to_entry_def Let_def os_key_str_Path
        mkdir_parents_existing [OF d] is_symlink_def readlink_def)
  with l show ?thesis by simp
qed

theorem link_twice_witness:
  "snd (cmd_link ex_store1 ex_fs_home 1) = Linked (Some ''/home/.zshrc.bak'') \<and>
   cmd_link ex_store1 (fst (cmd_link ex_store1 ex_fs_home 1)) 1 =
     (fst (cmd_link ex_store1 ex_fs_home 1), AlreadyLinked)"
proof -
  have 1: "select_dotfile ex_store1 1 = Some ex_row1"
    by (simp add: select_dotfile_def ex_store1_def ex_row1_def)
  have 2: "cmd_link ex_store1 ex_fs_home 1 =
             (fst (cmd_link ex_store1 ex_fs_home 1), snd (cmd_link ex_store1 ex_fs_home 1))"
    by simp
  have 3: "snd (cmd_link ex_store1 ex_fs_home 1) = Linked (Some ''/home/.zshrc.bak'')"
    by (simp add: link_eval ex_row1_def ex_store1_def ex_fs_home_def)
  have 4: "path_exists (fst (cmd_link ex_store1 ex_fs_home 1)) (key (Path (d_source_path ex_row1)))"
    by (simp add: link_eval ex_row1_def ex_store1_def ex_fs_home_def)
  from link_twice [OF 1 2 _ 4, of "Some ''/home/.zshrc.bak''"] 3 show ?thesis by simp
qed

text \<open>
  The claim as stated asks only that the source exists before the first call. For the
  entry \<open>ex_row_self\<close> the source exists, and the first call moves it aside (it is
  the target) and links the path to itself; the second call then finds no source and
  reports "Source does not exist", not "already linked".
\<close>

theorem link_twice_counterexample:
  "path_exists ex_fs2 (key (Path (d_source_path ex_row_self))) \<and>
   snd (cmd_link ex_store_self ex_fs2 1) = Linked (Some ''/dots/zshrc.bak'') \<and>
   snd (cmd_link ex_store_self (fst (cmd_link ex_store_self ex_fs2 1)) 1) = SourceDoesNotExist"
  by (simp add: link_eval ex_row_self_def ex_store_self_def ex_fs2_def)

section \<open>C5: registration keeps names unique\<close>

text \<open>
  Claim C5. Name uniqueness is an invariant of the entry store: whatever is registered,
  the names in the table stay pairwise distinct; and registering, under a valid
  category, a name that the table holds already leaves the store as it was, reports
  "already registered" (the caught \<^verbatim>\<open>IntegrityError\<close>, not an exception), and the
  table then holds exactly one entry of that name.
\<close>

theorem register_name_unique:
  assumes "distinct (map d_name (dotfiles db))"
  shows "distinct (map d_name (dotfiles (fst (cmd_register db args)))) \<and>
         (a_category args \<in> set CATEGORIES \<and> a_name args \<in> set (map d_name (dotfiles db)) \<longrightarrow>
            cmd_register db args = (db, AlreadyRegistered) \<and>
            length (filter (\<lambda>r. d_name r = a_name args) (dotfiles (fst (cmd_register db args)))) = 1)"
proof (intro conjI impI)
  show "distinct (map d_name (dotfiles (fst (cmd_register db args))))"
    using assms by (auto simp: cmd_register_def split: option.splits dest: insert_dotfile_distinct)
next
  assume h: "a_category args \<in> set CATEGORIES \<and> a_name args \<in> set (map d_name (dotfiles db))"
  then show r: "cmd_register db args = (db, AlreadyRegistered)"
    by (simp add: cmd_register_def insert_dotfile_duplicate)
  from h obtain x where "x \<in> set (dotfiles db)" "d_name x = a_name args" by auto
  with distinct_count_one [OF assms, of x] r
  show "length (filter (\<lambda>r. d_name r = a_name args) (dotfiles (fst (cmd_register db args)))) = 1"
    by simp
qed

theorem register_name_unique_witness:
  "cmd_register ex_store1 ex_args = (ex_store1, AlreadyRegistered) \<and>
   length (filter (\<lambda>r. d_name r = ''zshrc'') (dotfiles ex_store1)) = 1"
  using register_name_unique [of ex_store1 ex_args]
  by (simp add: ex_store1_def ex_row1_def ex_args_def CATEGORIES_def)

section \<open>C6: comparing a file with its latest snapshot\<close>




section \<open>C7: linking an entry whose source is missing\<close>

text \<open>
  Claim C7. For an entry whose source path does not exist, \<^verbatim>\<open>cmd_link\<close> reports
  "Source does not exist" and returns the file system it was given: the test comes
  before the parent directories are made, before any rename and before the symbolic
  link is created.
\<close>

theorem link_missing_source_no_mutation:
  assumes "select_dotfile db entry_id = Some row"
      and "\<not> path_exists fs (key (Path (d_source_path row)))"
  shows "cmd_link db fs entry_id = (fs, SourceDoesNotExist)"
  using assms by (simp add: cmd_link_def row_to_entry_def)

theorem link_missing_source_no_mutation_witness:
  "cmd_link ex_store1 Map.empty 1 = (Map.empty, SourceDoesNotExist)"
  by (rule link_missing_source_no_mutation [where row = ex_row1])
     (simp_all add: ex_store1_def ex_row1_def select_dotfile_def fs_eval)

section \<open>C8: the content hasher\<close>



section \<open>C9: exporting and importing the manifest\<close>

text \<open>
  Every exported row, imported into a store that does not hold its name, is inserted
  with its fields unchanged under a new id; so is a list of rows with distinct names.
\<close>

lemma import_row:
  assumes "stored_auto (d_auto_update r)" and "d_name r \<notin> set (map d_name (dotfiles db))"
  shows "import_item db (row_dict r) =
           Inr (db\<lparr>dotfiles := dotfiles db @
                      [r\<lparr>d_id := next_rowid (dotfiles_seq db) (map d_id (dotfiles db))\<rparr>],
                    dotfiles_seq := next_rowid (dotfiles_seq db) (map d_id (dotfiles db))\<rparr>)"
  using assms stored_auto_affinity [OF assms(1)] stored_auto_bind [OF assms(1)]
  by (cases "d_auto_update r")
     (simp_all add: import_item_def row_dict_def and_then_def insert_dotfile_def Let_def
        stored_auto_def)

lemma import_rows:
  assumes "list_all (\<lambda>r. stored_auto (d_auto_update r)) rows"
      and "distinct (map d_name rows)"
      and "set (map d_name rows) \<inter> set (map d_name (dotfiles db)) = {}"
  shows "\<exists>db'. import_loop db n (map row_dict rows) = (db', n + length rows) \<and>
               map entry_fields (dotfiles db') =
                 map entry_fields (dotfiles db) @ map entry_fields rows"
  using assms
proof (induction rows arbitrary: db n)
  case Nil
  then show ?case by simp
next
  case (Cons r rows)
  let ?id = "next_rowid (dotfiles_seq db) (map d_id (dotfiles db))"
  let ?db1 = "db\<lparr>dotfiles := dotfiles db @ [r\<lparr>d_id := ?id\<rparr>], dotfiles_seq := ?id\<rparr>"
  from Cons.prems have r: "stored_auto (d_auto_update r)" "d_name r \<notin> set (map d_name (dotfiles db))"
    by auto
  have step: "import_item db (row_dict r) = Inr ?db1" by (rule import_row [OF r])
  from Cons.prems have
    "list_all (\<lambda>r. stored_auto (d_auto_update r)) rows" "distinct (map d_name rows)"
    "set (map d_name rows) \<inter> set (map d_name (dotfiles ?db1)) = {}"
    by auto
  from Cons.IH [OF this, of "n + 1"] obtain db' where
    "import_loop ?db1 (n + 1) (map row_dict rows) = (db', n + 1 + length rows)"
    "map entry_fields (dotfiles db') = map entry_fields (dotfiles ?db1) @ map entry_fields rows"
    by blast
  then show ?case by (simp add: step entry_fields_id)
qed

text \<open>
  Claim C9. Exporting a store and importing the document into a store whose table of
  entries is empty imports every item (the report is \<open>n\<close> of \<open>n\<close>) and leaves a table
  with the same set of entries as the exported one: each with the same name, source
  path, target path, category, description and \<open>auto_update\<close>, whatever ids they get.
\<close>

theorem export_import_roundtrip:
  assumes "wf_dotfiles (dotfiles db)" and "dotfiles db0 = []"
  shows "\<exists>db'. cmd_import_manifest db0 (fst (cmd_export_manifest db)) =
                 Inr (db', length (dotfiles db), length (dotfiles db)) \<and>
               set (map entry_fields (dotfiles db')) = set (map entry_fields (dotfiles db)) \<and>
               length (dotfiles db') = length (dotfiles db)"
proof -
  let ?rows = "sort_key (\<lambda>r. (d_category r, d_name r)) (dotfiles db)"
  from assms(1) have d: "distinct (map d_name (dotfiles db))"
    and a: "list_all (\<lambda>r. stored_auto (d_auto_update r)) (dotfiles db)"
    by (simp_all add: wf_dotfiles_def)
  from d have "distinct (dotfiles db)" "inj_on d_name (set (dotfiles db))"
    by (simp_all add: distinct_map)
  then have 1: "distinct (map d_name ?rows)" by (simp add: distinct_map)
  from a have 2: "list_all (\<lambda>r. stored_auto (d_auto_update r)) ?rows"
    by (simp add: list_all_iff)
  have 3: "set (map d_name ?rows) \<inter> set (map d_name (dotfiles db0)) = {}"
    by (simp add: assms(2))
  from import_rows [OF 2 1 3, of 0] obtain db' where
    l: "import_loop db0 0 (map row_dict ?rows) = (db', length ?rows)" and
    f: "map entry_fields (dotfiles db') = map entry_fields (dotfiles db0) @ map entry_fields ?rows"
    by auto
  from f have f': "map entry_fields (dotfiles db') = map entry_fields ?rows"
    by (simp add: assms(2))
  have "cmd_import_manifest db0 (fst (cmd_export_manifest db)) =
          Inr (db', length (dotfiles db), length (dotfiles db))"
    using l by (simp add: cmd_import_manifest_def cmd_export_manifest_def Let_def)
  moreover from f' have "set (map entry_fields (dotfiles db')) = set (map entry_fields (dotfiles db))"
    by simp
  moreover from f' have "length (dotfiles db') = length (dotfiles db)"
    using length_map [of entry_fields "dotfiles db'"] by simp
  ultimately show ?thesis by blast
qed

theorem export_import_roundtrip_witness:
  "\<exists>db'. cmd_import_manifest empty_store (fst (cmd_export_manifest ex_store2)) = Inr (db', 2, 2) \<and>
         set (map entry_fields (dotfiles db')) = {entry_fields ex_row1, entry_fields ex_row2} \<and>
         length (dotfiles db') = 2"
proof -
  have 1: "wf_dotfiles (dotfiles ex_store2)"
    by (simp add: wf_dotfiles_def stored_auto_def ex_store2_def ex_row1_def ex_row2_def)
  have 2: "dotfiles empty_store = []" by (simp add: empty_store_def)
  from export_import_roundtrip [OF 1 2] show ?thesis
    by (simp add: ex_store2_def numeral_2_eq_2)
qed

section \<open>C10: comparing a missing file\<close>

text \<open>
  Claim C10. Let an entry have a latest snapshot as \<^verbatim>\<open>cmd_backup\<close> writes it: the hash
  is the SHA-256 digest of some bytes \<open>c\<close> and the stored content is their Base64
  encoding. When the source file cannot be read, \<^verbatim>\<open>file_hash\<close> gives the empty
  string, which is no digest, so \<^verbatim>\<open>cmd_diff\<close> reports the file as changed and runs
  the diff program on the snapshot's bytes and the unreadable path; it neither stops
  on the read error nor reports the hash as unavailable.
\<close>

theorem diff_missing_source_reports_changed:
  assumes "select_dotfile db entry_id = Some row"
      and "select_latest tie db entry_id = Some snap"
      and "s_content_hash snap = hexdigest (sha256 c)"
      and "s_content_b64 snap = b64encode c"
      and "read_bytes fs (os_key (d_source_path row)) = Inl x"
  shows "file_hash fs (d_source_path row) = [] \<and>
         file_hash fs (d_source_path row) \<noteq> s_content_hash snap \<and>
         cmd_diff tie tool db fs entry_id =
           (case tool of
              None \<Rightarrow> ChangedThenRaised (take 19 (s_saved_at snap)) FileNotFoundError
            | Some run \<Rightarrow>
                Changed (take 19 (s_saved_at snap))
                  (if run c (Inl x) \<noteq> [] then Some (take 2000 (run c (Inl x))) else None))"
proof -
  have h: "file_hash fs (d_source_path row) = []"
    by (simp add: file_hash_def assms(5))
  have ne: "[] \<noteq> hexdigest (sha256 c)"
    using sha256_hex_nonempty [of c] by simp
  show ?thesis
    using ne by (simp add: cmd_diff_def assms h row_to_entry_def Let_def b64_roundtrip
        split: option.splits)
qed

theorem diff_missing_source_reports_changed_witness:
  "cmd_diff first_of (Some ex_diff) ex_store_tie Map.empty 1 =
     Changed ''2024-03-03T12:00:00'' (Some ''--- old'')"
proof -
  have sel: "select_dotfile ex_store_tie 1 = Some ex_row1"
    by (simp add: select_dotfile_def ex_store_tie_def ex_row1_def)
  have h: "s_content_hash ex_snap_a = hexdigest (sha256 [0x21])"
    "s_content_b64 ex_snap_a = b64encode [0x21]"
    by (simp_all add: ex_snap_a_def)
  have r: "read_bytes Map.empty (os_key (d_source_path ex_row1)) = Inl FileNotFoundError"
    by (simp add: ex_row1_def fs_eval)
  from diff_missing_source_reports_changed [OF sel ex_latest_first h r, of "Some ex_diff"]
  show ?thesis by (simp add: ex_diff_def ex_snap_a_def)
qed

end
